theory Spec2Isabelle
  imports Main
begin

section \<open>Data model\<close>

text \<open>
  A Go \<^verbatim>\<open>error\<close> is modelled by its message; \<open>None\<close> of \<open>err option\<close> is
  \<^verbatim>\<open>nil\<close>.  An error with an empty message is still an error.
\<close>

type_synonym err = string

text \<open>
  A release revision as the Helm SDK hands it over.  The program reads the three
  fields below; everything else a revision carries travels in the record's extension.
\<close>

record release =
  Name :: string
  Namespace :: string
  Version :: int

text \<open>The package-level variables that \<^verbatim>\<open>flag.Parse\<close> fills in.\<close>

record flags =
  kubeconfig :: string
  to :: string
  namespace :: string
  maxHist :: int

text \<open>
  The action configuration after \<^verbatim>\<open>cfg.Init\<close>: it remembers the kubeconfig
  path, the namespace and the name of the storage driver it was initialised with.
  Every read of the source driver goes through it.
\<close>

record Configuration =
  cfg_kubeconfig :: string
  cfg_namespace :: string
  cfg_driver :: string

record 'cs Migrator =
  clientset :: 'cs
  actionCfg :: Configuration

text \<open>
  The target storage built by the \<^verbatim>\<open>switch\<close> of \<^verbatim>\<open>migrateRelease\<close>: a
  ConfigMaps or a Secrets driver on the namespace given to the call.
\<close>

datatype driver_kind = ConfigMaps | Secrets

record Storage =
  drv_kind :: driver_kind
  drv_namespace :: string

text \<open>
  The calls the program makes to the Helm SDK, in the order it makes them.  A
  \<open>StorageCreate\<close> and a \<open>ReleasesDelete\<close> carry what the call returned.
\<close>

datatype call =
    HistoryRun Configuration int string
  | StorageCreate Storage release "err option"
  | ReleasesDelete Configuration string int "err option"
  | ListRun Configuration bool

text \<open>
  The SDK and the cluster behind it are not part of the repository.  They are a
  parameter of the model: a cluster state \<open>'w\<close> and one function per SDK entry point
  the program calls.  Entry points that work through the action configuration also
  return the lines they send to the configuration's log function.
  \<^item> \<open>BuildConfigFromFlags\<close>, \<open>NewForConfig\<close> and \<open>cfg_Init\<close> are the three steps of
    \<^verbatim>\<open>NewMigrator\<close> that can fail;
  \<^item> \<open>history_Run\<close> is \<^verbatim>\<open>action.NewHistory(cfg).Run(name)\<close> with its \<^verbatim>\<open>Max\<close>, and
    \<open>list_Run\<close> is \<^verbatim>\<open>action.NewList(cfg).Run()\<close> with its \<^verbatim>\<open>AllNamespaces\<close>; both
    read the cluster and leave it as it is;
  \<^item> \<open>storage_Create\<close> is \<^verbatim>\<open>Create\<close> on the target storage, built from the clientset,
    and \<open>releases_Delete\<close> is \<^verbatim>\<open>cfg.Releases.Delete(name, version)\<close>; both return
    the cluster they leave behind, whether they fail or not.

  The revisions a history holds are taken to be proper releases (no \<^verbatim>\<open>nil\<close> among
  them).
\<close>

record ('w, 'rc, 'cs) sdk =
  BuildConfigFromFlags :: "string \<Rightarrow> 'w \<Rightarrow> err + 'rc"
  NewForConfig :: "'rc \<Rightarrow> 'w \<Rightarrow> err + 'cs"
  cfg_Init :: "string \<Rightarrow> string \<Rightarrow> string \<Rightarrow> 'w \<Rightarrow> string list \<times> err option"
  history_Run :: "Configuration \<Rightarrow> int \<Rightarrow> string \<Rightarrow> 'w \<Rightarrow> string list \<times> (err + release list)"
  list_Run :: "Configuration \<Rightarrow> bool \<Rightarrow> 'w \<Rightarrow> string list \<times> (err + release list)"
  storage_Create :: "'cs \<Rightarrow> Storage \<Rightarrow> release \<Rightarrow> 'w \<Rightarrow> err option \<times> 'w"
  releases_Delete :: "Configuration \<Rightarrow> string \<Rightarrow> int \<Rightarrow> 'w \<Rightarrow> string list \<times> err option \<times> 'w"

text \<open>
  The state a run threads through: the cluster, the SDK calls made so far and the
  lines written to standard output so far.
\<close>

record 'w state =
  world :: 'w
  calls :: "call list"
  stdout :: "string list"

section \<open>Output\<close>

text \<open>\<^verbatim>\<open>%d\<close> of \<^verbatim>\<open>fmt.Printf\<close>: decimal digits, with a minus sign below zero.\<close>

fun show_nat :: "nat \<Rightarrow> string" where
  "show_nat n =
     (if n < 10 then [''0123456789'' ! n]
      else show_nat (n div 10) @ [''0123456789'' ! (n mod 10)])"

declare show_nat.simps [simp del]

definition show_int :: "int \<Rightarrow> string" where
  "show_int i = (if i < 0 then CHR ''-'' # show_nat (nat (- i)) else show_nat (nat i))"

text \<open>
  Every print statement of the program writes one text and a newline; standard
  output is kept as the list of these texts.
\<close>

definition println :: "string \<Rightarrow> 'w state \<Rightarrow> 'w state" where
  "println line s = s\<lparr>stdout := stdout s @ [line]\<rparr>"

text \<open>
  The log function \<^verbatim>\<open>NewMigrator\<close> hands to \<^verbatim>\<open>cfg.Init\<close> prints each message
  of the SDK on standard output.
\<close>

definition debug_log :: "string list \<Rightarrow> 'w state \<Rightarrow> 'w state" where
  "debug_log msgs s = s\<lparr>stdout := stdout s @ msgs\<rparr>"

definition record_call :: "call \<Rightarrow> 'w state \<Rightarrow> 'w state" where
  "record_call c s = s\<lparr>calls := calls s @ [c]\<rparr>"

section \<open>The Migrator\<close>

definition NewMigrator ::
  "('w, 'rc, 'cs) sdk \<Rightarrow> (string \<Rightarrow> string) \<Rightarrow> string \<Rightarrow> string \<Rightarrow> 'w state
     \<Rightarrow> (err + 'cs Migrator) \<times> 'w state" where
  "NewMigrator k getenv kubeconfig_path ns s =
     (case BuildConfigFromFlags k kubeconfig_path (world s) of
        Inl e \<Rightarrow> (Inl e, s)
      | Inr kubecfg \<Rightarrow>
          (case NewForConfig k kubecfg (world s) of
             Inl e \<Rightarrow> (Inl e, s)
           | Inr cs \<Rightarrow>
               (case cfg_Init k kubeconfig_path ns (getenv ''HELM_DRIVER'') (world s) of
                  (msgs, Some e) \<Rightarrow> (Inl e, debug_log msgs s)
                | (msgs, None) \<Rightarrow>
                    (Inr \<lparr>clientset = cs,
                          actionCfg = \<lparr>cfg_kubeconfig = kubeconfig_path, cfg_namespace = ns,
                                       cfg_driver = getenv ''HELM_DRIVER''\<rparr>\<rparr>,
                     debug_log msgs s))))"

text \<open>The \<^verbatim>\<open>switch to\<close> at the head of \<^verbatim>\<open>migrateRelease\<close>.\<close>

definition select_storage :: "string \<Rightarrow> string \<Rightarrow> Storage option" where
  "select_storage t ns =
     (if t = ''configmap'' \<or> t = ''configmaps'' then Some \<lparr>drv_kind = ConfigMaps, drv_namespace = ns\<rparr>
      else if t = ''secret'' \<or> t = ''secrets'' then Some \<lparr>drv_kind = Secrets, drv_namespace = ns\<rparr>
      else None)"

text \<open>
  The loop over the fetched history.  A failed create sets \<open>failed\<close>, prints and goes
  on to the next revision; only after a successful create is the revision deleted
  through the action configuration; a failed delete sets \<open>failed\<close>, prints and goes on.
\<close>

fun migrate_revisions ::
  "('w, 'rc, 'cs) sdk \<Rightarrow> 'cs Migrator \<Rightarrow> Storage \<Rightarrow> string \<Rightarrow> release list \<Rightarrow> bool \<Rightarrow> 'w state
     \<Rightarrow> bool \<times> 'w state" where
  "migrate_revisions k m helmStorage releaseName [] failed s = (failed, s)"
| "migrate_revisions k m helmStorage releaseName (r # hist) failed s =
     (case storage_Create k (clientset m) helmStorage r (world s) of
        (Some e, w1) \<Rightarrow>
          migrate_revisions k m helmStorage releaseName hist True
            (println (''failed to migrate release '' @ releaseName @ '' version ''
                        @ show_int (Version r) @ '',: '' @ e)
               (record_call (StorageCreate helmStorage r (Some e)) (s\<lparr>world := w1\<rparr>)))
      | (None, w1) \<Rightarrow>
          (case releases_Delete k (actionCfg m) releaseName (Version r) w1 of
             (msgs, Some e, w2) \<Rightarrow>
               migrate_revisions k m helmStorage releaseName hist True
                 (println (''failed to delete release '' @ releaseName @ '' version ''
                             @ show_int (Version r) @ '': '' @ e)
                    (debug_log msgs
                       (record_call (ReleasesDelete (actionCfg m) releaseName (Version r) (Some e))
                          (record_call (StorageCreate helmStorage r None) (s\<lparr>world := w2\<rparr>)))))
           | (msgs, None, w2) \<Rightarrow>
               migrate_revisions k m helmStorage releaseName hist failed
                 (println (''migrated release '' @ releaseName @ '' version ''
                             @ show_int (Version r))
                    (debug_log msgs
                       (record_call (ReleasesDelete (actionCfg m) releaseName (Version r) None)
                          (record_call (StorageCreate helmStorage r None) (s\<lparr>world := w2\<rparr>)))))))"

definition migrateRelease ::
  "('w, 'rc, 'cs) sdk \<Rightarrow> flags \<Rightarrow> 'cs Migrator \<Rightarrow> string \<Rightarrow> string \<Rightarrow> 'w state
     \<Rightarrow> err option \<times> 'w state" where
  "migrateRelease k fl m releaseName ns s =
     (case select_storage (to fl) ns of
        None \<Rightarrow> (Some (''unknown resource type '' @ to fl), s)
      | Some helmStorage \<Rightarrow>
          (case history_Run k (actionCfg m) (maxHist fl) releaseName (world s) of
             (msgs, Inl e) \<Rightarrow>
               (Some e, debug_log msgs
                          (record_call (HistoryRun (actionCfg m) (maxHist fl) releaseName) s))
           | (msgs, Inr hist) \<Rightarrow>
               (case migrate_revisions k m helmStorage releaseName hist False
                       (debug_log msgs
                          (record_call (HistoryRun (actionCfg m) (maxHist fl) releaseName) s)) of
                  (failed, s') \<Rightarrow>
                    (if failed then Some (''failed to migrate release '' @ releaseName) else None,
                     s'))))"

text \<open>The loop of \<^verbatim>\<open>migrateNamespace\<close> over the listed releases.\<close>

fun migrateNamespace_loop ::
  "('w, 'rc, 'cs) sdk \<Rightarrow> flags \<Rightarrow> 'cs Migrator \<Rightarrow> string \<Rightarrow> release list \<Rightarrow> 'w state
     \<Rightarrow> 'w state" where
  "migrateNamespace_loop k fl m ns [] s = s"
| "migrateNamespace_loop k fl m ns (r # releases) s =
     (if Namespace r = ns then
        (case migrateRelease k fl m (Name r) ns s of
           (Some e, s') \<Rightarrow> migrateNamespace_loop k fl m ns releases (println e s')
         | (None, s') \<Rightarrow> migrateNamespace_loop k fl m ns releases s')
      else migrateNamespace_loop k fl m ns releases s)"

definition migrateNamespace ::
  "('w, 'rc, 'cs) sdk \<Rightarrow> flags \<Rightarrow> 'cs Migrator \<Rightarrow> string \<Rightarrow> 'w state \<Rightarrow> err option \<times> 'w state" where
  "migrateNamespace k fl m ns s =
     (case list_Run k (actionCfg m) False (world s) of
        (msgs, Inl e) \<Rightarrow> (Some e, debug_log msgs (record_call (ListRun (actionCfg m) False) s))
      | (msgs, Inr releases) \<Rightarrow>
          (None, migrateNamespace_loop k fl m ns releases
                   (debug_log msgs (record_call (ListRun (actionCfg m) False) s))))"

text \<open>The loop of \<^verbatim>\<open>migrateAll\<close>: every listed release, each with its own namespace.\<close>

fun migrateAll_loop ::
  "('w, 'rc, 'cs) sdk \<Rightarrow> flags \<Rightarrow> 'cs Migrator \<Rightarrow> release list \<Rightarrow> 'w state \<Rightarrow> 'w state" where
  "migrateAll_loop k fl m [] s = s"
| "migrateAll_loop k fl m (r # releases) s =
     (case migrateRelease k fl m (Name r) (Namespace r) s of
        (Some e, s') \<Rightarrow> migrateAll_loop k fl m releases (println e s')
      | (None, s') \<Rightarrow> migrateAll_loop k fl m releases s')"

definition migrateAll ::
  "('w, 'rc, 'cs) sdk \<Rightarrow> flags \<Rightarrow> 'cs Migrator \<Rightarrow> 'w state \<Rightarrow> err option \<times> 'w state" where
  "migrateAll k fl m s =
     (case list_Run k (actionCfg m) True (world s) of
        (msgs, Inl e) \<Rightarrow> (Some e, debug_log msgs (record_call (ListRun (actionCfg m) True) s))
      | (msgs, Inr releases) \<Rightarrow>
          (None, migrateAll_loop k fl m releases
                   (debug_log msgs (record_call (ListRun (actionCfg m) True) s))))"

section \<open>The command line\<close>

text \<open>
  \<^verbatim>\<open>flag.Arg(i)\<close>: the i-th argument left after the flags, the empty string when
  there is none.
\<close>

definition flag_Arg :: "string list \<Rightarrow> nat \<Rightarrow> string" where
  "flag_Arg args i = (if i < length args then args ! i else '''')"

text \<open>
  The tail of \<^verbatim>\<open>main\<close>: an error of the chosen operation is printed and the
  process exits with 1; without one \<^verbatim>\<open>main\<close> returns, which is exit code 0.
\<close>

definition exit_on_error :: "err option \<times> 'w state \<Rightarrow> 'w state \<times> int" where
  "exit_on_error res =
     (case res of
        (Some e, s) \<Rightarrow> (println e s, 1)
      | (None, s) \<Rightarrow> (s, 0))"

text \<open>
  \<^verbatim>\<open>main\<close> after \<^verbatim>\<open>flag.Parse\<close> has filled the flags and left the positional
  arguments: the final state and the exit code of the process.
\<close>

definition main ::
  "('w, 'rc, 'cs) sdk \<Rightarrow> (string \<Rightarrow> string) \<Rightarrow> flags \<Rightarrow> string list \<Rightarrow> 'w state
     \<Rightarrow> 'w state \<times> int" where
  "main k getenv fl args s =
     (let subcommands = flag_Arg args 0 in
      if subcommands = '''' then (println ''subprogram is required'' s, 1)
      else
        (case NewMigrator k getenv (kubeconfig fl) (namespace fl) s of
           (Inl e, s1) \<Rightarrow> (println e s1, 1)
         | (Inr migrator, s1) \<Rightarrow>
             (if subcommands = ''release'' then
                (let releaseName = flag_Arg args 1 in
                 if releaseName = '''' then (println ''release name is required'' s1, 1)
                 else exit_on_error (migrateRelease k fl migrator releaseName (namespace fl) s1))
              else if subcommands = ''namespace'' then
                exit_on_error (migrateNamespace k fl migrator (namespace fl) s1)
              else if subcommands = ''all'' then
                exit_on_error (migrateAll k fl migrator s1)
              else exit_on_error (Some (''unknown subprogram '' @ subcommands), s1))))"

section \<open>Observing a run\<close>

text \<open>
  The SDK calls a step added: the calls of the state after it, without those of the
  state before it.
\<close>

definition new_calls :: "'w state \<Rightarrow> 'w state \<Rightarrow> call list" where
  "new_calls s s' = drop (length (calls s)) (calls s')"

fun is_create :: "call \<Rightarrow> bool" where
  "is_create (StorageCreate st r res) = True"
| "is_create _ = False"

fun is_delete :: "call \<Rightarrow> bool" where
  "is_delete (ReleasesDelete cfg n v res) = True"
| "is_delete _ = False"

text \<open>A create or a delete that returned an error.\<close>

fun call_failed :: "call \<Rightarrow> bool" where
  "call_failed (StorageCreate st r (Some e)) = True"
| "call_failed (ReleasesDelete cfg n v (Some e)) = True"
| "call_failed _ = False"

text \<open>The revisions a run tried to write, and those it wrote, in the order of the calls.\<close>

fun create_attempts :: "call list \<Rightarrow> release list" where
  "create_attempts [] = []"
| "create_attempts (StorageCreate st r res # t) = r # create_attempts t"
| "create_attempts (c # t) = create_attempts t"

fun created :: "call list \<Rightarrow> release list" where
  "created [] = []"
| "created (StorageCreate st r None # t) = r # created t"
| "created (c # t) = created t"

text \<open>The (release name, version) pairs a run tried to delete, in the order of the calls.\<close>

fun delete_attempts :: "call list \<Rightarrow> (string \<times> int) list" where
  "delete_attempts [] = []"
| "delete_attempts (ReleasesDelete cfg n v res # t) = (n, v) # delete_attempts t"
| "delete_attempts (c # t) = delete_attempts t"

text \<open>
  What the SDK does to the cluster when each revision of a history is created on the
  target storage and then deleted through the configuration, in order, every call
  succeeding; \<open>None\<close> when one of the calls fails.
\<close>

fun apply_migration ::
  "('w, 'rc, 'cs) sdk \<Rightarrow> 'cs \<Rightarrow> Storage \<Rightarrow> Configuration \<Rightarrow> string \<Rightarrow> release list \<Rightarrow> 'w
     \<Rightarrow> 'w option" where
  "apply_migration k cs st cfg name [] w = Some w"
| "apply_migration k cs st cfg name (r # hist) w =
     (case storage_Create k cs st r w of
        (Some e, w1) \<Rightarrow> None
      | (None, w1) \<Rightarrow>
          (case releases_Delete k cfg name (Version r) w1 of
             (msgs, Some e, w2) \<Rightarrow> None
           | (msgs, None, w2) \<Rightarrow> apply_migration k cs st cfg name hist w2))"

text \<open>
  The calls \<^verbatim>\<open>migrateRelease(name, ns)\<close> may make for a release: the history
  fetch and the deletes go through the Migrator's action configuration under the
  release's name, the creates go to a driver on the namespace \<open>ns\<close>.
\<close>

fun release_call :: "'cs Migrator \<Rightarrow> flags \<Rightarrow> string \<Rightarrow> string \<Rightarrow> call \<Rightarrow> bool" where
  "release_call m fl name ns (HistoryRun cfg mx n) =
     (cfg = actionCfg m \<and> mx = maxHist fl \<and> n = name)"
| "release_call m fl name ns (StorageCreate st r res) = (drv_namespace st = ns)"
| "release_call m fl name ns (ReleasesDelete cfg n v res) = (cfg = actionCfg m \<and> n = name)"
| "release_call m fl name ns (ListRun cfg b) = False"

text \<open>
  The calls of one \<^verbatim>\<open>migrateRelease(name, ns)\<close>: none when \<^verbatim>\<open>-to\<close> is not
  recognised, otherwise the history fetch first; all of them calls for that release.
\<close>

definition release_segment :: "'cs Migrator \<Rightarrow> flags \<Rightarrow> string \<Rightarrow> string \<Rightarrow> call list \<Rightarrow> bool" where
  "release_segment m fl name ns t =
     (list_all (release_call m fl name ns) t
      \<and> (case select_storage (to fl) ns of
           None \<Rightarrow> t = []
         | Some st \<Rightarrow>
             (case t of [] \<Rightarrow> False
              | c # t' \<Rightarrow> c = HistoryRun (actionCfg m) (maxHist fl) name)))"

text \<open>
  The shape of the calls the loop over a history makes: per revision, a failed create
  alone, or a successful create followed by the delete of that version.
\<close>

inductive revision_calls :: "Configuration \<Rightarrow> Storage \<Rightarrow> string \<Rightarrow> release list \<Rightarrow> call list \<Rightarrow> bool"
  for cfg :: Configuration and st :: Storage and name :: string where
  rc_Nil: "revision_calls cfg st name [] []"
| rc_CreateFailed:
    "revision_calls cfg st name hist t
       \<Longrightarrow> revision_calls cfg st name (r # hist) (StorageCreate st r (Some e) # t)"
| rc_Deleted:
    "revision_calls cfg st name hist t
       \<Longrightarrow> revision_calls cfg st name (r # hist)
             (StorageCreate st r None # ReleasesDelete cfg name (Version r) res # t)"

section \<open>A small cluster to run the model on\<close>

text \<open>
  An in-memory stand-in for the SDK: the cluster is the list of revisions in the source
  driver, the list of objects in the target drivers, and the versions the source
  refuses to delete.  A create fails when the target already holds that revision, a
  delete fails on a protected version or a missing revision, a history fetch fails
  when the release has no revision in the configuration's namespace (the empty
  namespace stands for all of them), and listing fails when the kubeconfig path is
  \<open>/dev/null\<close>.
\<close>

type_synonym cluster = "release list \<times> (Storage \<times> release) list \<times> int list"

definition mem_sdk :: "(cluster, string, string) sdk" where
  "mem_sdk =
     \<lparr>BuildConfigFromFlags =
        (\<lambda>path w. if path = [] then Inl ''invalid configuration'' else Inr path),
      NewForConfig = (\<lambda>rc w. Inr rc),
      cfg_Init = (\<lambda>path ns d w. ([], None)),
      history_Run =
        (\<lambda>cfg mx n (src, tgt, prot).
           ([''getting history for release '' @ n],
            (case filter (\<lambda>r. Name r = n \<and> (cfg_namespace cfg = [] \<or> Namespace r = cfg_namespace cfg)) src of
               [] \<Rightarrow> Inl ''release: not found''
             | r # h \<Rightarrow> Inr (take (nat mx) (r # h))))),
      list_Run =
        (\<lambda>cfg all (src, tgt, prot).
           ([], if cfg_kubeconfig cfg = ''/dev/null'' then Inl ''Kubernetes cluster unreachable''
                else Inr (filter (\<lambda>r. all \<or> cfg_namespace cfg = [] \<or> Namespace r = cfg_namespace cfg)
                            src))),
      storage_Create =
        (\<lambda>cs st r (src, tgt, prot).
           if list_ex (\<lambda>(st', r'). st' = st \<and> Name r' = Name r \<and> Version r' = Version r) tgt
           then (Some ''release: already exists'', (src, tgt, prot))
           else (None, (src, tgt @ [(st, r)], prot))),
      releases_Delete =
        (\<lambda>cfg n v (src, tgt, prot).
           if v \<in> set prot then ([], Some ''forbidden'', (src, tgt, prot))
           else if list_ex (\<lambda>r. Name r = n \<and> Version r = v) src
           then ([], None, (filter (\<lambda>r. \<not> (Name r = n \<and> Version r = v)) src, tgt, prot))
           else ([], Some ''release: not found'', (src, tgt, prot)))\<rparr>"

definition rel :: "string \<Rightarrow> string \<Rightarrow> int \<Rightarrow> release" where
  "rel n ns v = \<lparr>Name = n, Namespace = ns, Version = v\<rparr>"

text \<open>
  Three revisions of \<open>web\<close> in \<open>default\<close> and two of \<open>db\<close> in \<open>prod\<close> in the source;
  the Secrets driver of \<open>default\<close> already holds \<open>web\<close> version 2, and version 3 is
  protected.
\<close>

definition cluster0 :: cluster where
  "cluster0 =
     ([rel ''web'' ''default'' 1, rel ''web'' ''default'' 2, rel ''web'' ''default'' 3,
       rel ''db'' ''prod'' 1, rel ''db'' ''prod'' 2],
      [(\<lparr>drv_kind = Secrets, drv_namespace = ''default''\<rparr>, rel ''web'' ''default'' 2)],
      [3])"

definition state0 :: "cluster state" where
  "state0 = \<lparr>world = cluster0, calls = [], stdout = []\<rparr>"

definition flags0 :: flags where
  "flags0 = \<lparr>kubeconfig = ''config'', to = ''secret'', namespace = ''default'', maxHist = 3\<rparr>"

definition cfg0 :: "string \<Rightarrow> Configuration" where
  "cfg0 ns = \<lparr>cfg_kubeconfig = ''config'', cfg_namespace = ns, cfg_driver = ''configmap''\<rparr>"

definition migrator0 :: "string \<Rightarrow> string Migrator" where
  "migrator0 ns = \<lparr>clientset = ''config'', actionCfg = cfg0 ns\<rparr>"

definition secrets_in :: "string \<Rightarrow> Storage" where
  "secrets_in ns = \<lparr>drv_kind = Secrets, drv_namespace = ns\<rparr>"

text \<open>Two runs on it: \<open>web\<close> meets both failures, \<open>db\<close> migrates cleanly.\<close>

definition web_run :: "err option \<times> cluster state" where
  "web_run = migrateRelease mem_sdk flags0 (migrator0 ''default'') ''web'' ''default'' state0"

definition db_run :: "err option \<times> cluster state" where
  "db_run = migrateRelease mem_sdk flags0 (migrator0 ''prod'') ''db'' ''prod'' state0"

text \<open>
  A second, smaller cluster with one revision in each of two namespaces, a Migrator
  whose configuration was initialised with the empty namespace, and the environment
  of the process.
\<close>

definition cluster1 :: cluster where
  "cluster1 = ([rel ''web'' ''default'' 1, rel ''db'' ''prod'' 1], [], [])"

definition state1 :: "cluster state" where
  "state1 = \<lparr>world = cluster1, calls = [], stdout = []\<rparr>"

definition flags1 :: flags where
  "flags1 = \<lparr>kubeconfig = ''config'', to = ''secret'', namespace = [], maxHist = 3\<rparr>"

definition getenv0 :: "string \<Rightarrow> string" where
  "getenv0 v = (if v = ''HELM_DRIVER'' then ''configmap'' else [])"

definition namespace_run :: "err option \<times> cluster state" where
  "namespace_run = migrateNamespace mem_sdk flags1 (migrator0 []) ''prod'' state1"

definition all_run :: "err option \<times> cluster state" where
  "all_run = migrateAll mem_sdk flags1 (migrator0 []) state1"

text \<open>Flags and a Migrator on a kubeconfig the listing fails on.\<close>

definition flags_null :: flags where
  "flags_null = flags0\<lparr>kubeconfig := ''/dev/null''\<rparr>"

definition migrator_null :: "string Migrator" where
  "migrator_null = \<lparr>clientset = ''/dev/null'',
      actionCfg = \<lparr>cfg_kubeconfig = ''/dev/null'', cfg_namespace = ''default'',
                   cfg_driver = ''configmap''\<rparr>\<rparr>"

text \<open>
  The cluster after \<open>db_run\<close>; the states of the first cluster right after the listing;
  and a third cluster with a release of the same name in two namespaces, migrated by a
  Migrator whose configuration was initialised with \<open>prod\<close>.
\<close>

definition cluster_db_migrated :: cluster where
  "cluster_db_migrated =
     ([rel ''web'' ''default'' 1, rel ''web'' ''default'' 2, rel ''web'' ''default'' 3],
      [(secrets_in ''default'', rel ''web'' ''default'' 2),
       (secrets_in ''prod'', rel ''db'' ''prod'' 1),
       (secrets_in ''prod'', rel ''db'' ''prod'' 2)],
      [3])"

definition listed_ns :: "cluster state" where
  "listed_ns = debug_log [] (record_call (ListRun (actionCfg (migrator0 ''default'')) False) state0)"

definition listed_all :: "cluster state" where
  "listed_all = debug_log [] (record_call (ListRun (actionCfg (migrator0 ''default'')) True) state0)"

definition cluster2 :: cluster where
  "cluster2 = ([rel ''web'' ''default'' 7, rel ''web'' ''prod'' 1], [], [])"

definition state2 :: "cluster state" where
  "state2 = \<lparr>world = cluster2, calls = [], stdout = []\<rparr>"

definition scoped_run :: "err option \<times> cluster state" where
  "scoped_run = migrateNamespace mem_sdk flags0 (migrator0 ''prod'') ''prod'' state2"

section \<open>The calls of a run\<close>

lemma calls_println [simp]: "calls (println l s) = calls s"
  by (simp add: println_def)

lemma calls_debug_log [simp]: "calls (debug_log msgs s) = calls s"
  by (simp add: debug_log_def)

lemma calls_record_call [simp]: "calls (record_call c s) = calls s @ [c]"
  by (simp add: record_call_def)

lemma new_calls_append [simp]: "calls s' = calls s @ t \<Longrightarrow> new_calls s s' = t"
  by (simp add: new_calls_def)

lemma migrate_revisions_calls:
  "\<exists>t. calls (snd (migrate_revisions k m st name hist f s)) = calls s @ t
       \<and> revision_calls (actionCfg m) st name hist t
       \<and> fst (migrate_revisions k m st name hist f s) = (f \<or> (\<exists>c\<in>set t. call_failed c))"
proof (induction hist arbitrary: f s)
  case Nil
  show ?case by (auto intro: revision_calls.intros)
next
  case (Cons r hist)
  obtain cres w1 where cr: "storage_Create k (clientset m) st r (world s) = (cres, w1)"
    by (cases "storage_Create k (clientset m) st r (world s)")
  show ?case
  proof (cases cres)
    case (Some e)
    define s1 where "s1 = println (''failed to migrate release '' @ name @ '' version ''
                        @ show_int (Version r) @ '',: '' @ e)
               (record_call (StorageCreate st r (Some e)) (s\<lparr>world := w1\<rparr>))"
    have step: "migrate_revisions k m st name (r # hist) f s = migrate_revisions k m st name hist True s1"
      using cr Some by (simp add: s1_def)
    have c1: "calls s1 = calls s @ [StorageCreate st r (Some e)]"
      by (simp add: s1_def)
    from Cons.IH [of True s1] obtain t where
      t: "calls (snd (migrate_revisions k m st name hist True s1)) = calls s1 @ t"
         "revision_calls (actionCfg m) st name hist t"
      by blast
    have "fst (migrate_revisions k m st name hist True s1)"
      using Cons.IH [of True s1] by blast
    with t c1 step show ?thesis
      by (intro exI [of _ "StorageCreate st r (Some e) # t"])
         (auto intro: revision_calls.intros)
  next
    case None
    obtain msgs dres w2 where
      dl: "releases_Delete k (actionCfg m) name (Version r) w1 = (msgs, dres, w2)"
      by (cases "releases_Delete k (actionCfg m) name (Version r) w1")
    define line where "line = (case dres of
        Some e \<Rightarrow> ''failed to delete release '' @ name @ '' version '' @ show_int (Version r) @ '': '' @ e
      | None \<Rightarrow> ''migrated release '' @ name @ '' version '' @ show_int (Version r))"
    define s2 where "s2 = println line (debug_log msgs
                       (record_call (ReleasesDelete (actionCfg m) name (Version r) dres)
                          (record_call (StorageCreate st r None) (s\<lparr>world := w2\<rparr>))))"
    define f' where "f' = (f \<or> dres \<noteq> None)"
    have step: "migrate_revisions k m st name (r # hist) f s = migrate_revisions k m st name hist f' s2"
      using cr None dl by (cases dres) (simp_all add: s2_def line_def f'_def)
    have c2: "calls s2 = calls s @ [StorageCreate st r None, ReleasesDelete (actionCfg m) name (Version r) dres]"
      by (simp add: s2_def)
    from Cons.IH [of f' s2] obtain t where
      t: "calls (snd (migrate_revisions k m st name hist f' s2)) = calls s2 @ t"
         "revision_calls (actionCfg m) st name hist t"
         "fst (migrate_revisions k m st name hist f' s2) = (f' \<or> (\<exists>c\<in>set t. call_failed c))"
      by blast
    have fl: "call_failed (ReleasesDelete (actionCfg m) name (Version r) dres) = (dres \<noteq> None)"
      by (cases dres) simp_all
    from t c2 step fl show ?thesis
      by (intro exI [of _ "StorageCreate st r None # ReleasesDelete (actionCfg m) name (Version r) dres # t"])
         (auto simp: f'_def intro: revision_calls.intros)
  qed
qed


lemma revision_calls_head:
  "revision_calls cfg st name hist t \<Longrightarrow> t = [] \<or> is_create (hd t)"
  by (induction rule: revision_calls.induct) simp_all

lemma revision_calls_delete_preceded:
  "revision_calls cfg st name hist t \<Longrightarrow> t = pre @ ReleasesDelete c n v dres # post
     \<Longrightarrow> \<exists>pre' r. pre = pre' @ [StorageCreate st r None] \<and> Version r = v \<and> c = cfg \<and> n = name"
proof (induction arbitrary: pre rule: revision_calls.induct)
  case rc_Nil
  then show ?case by simp
next
  case (rc_CreateFailed hist t r e)
  from rc_CreateFailed.prems obtain pre2 where
    p: "pre = StorageCreate st r (Some e) # pre2" "t = pre2 @ ReleasesDelete c n v dres # post"
    by (cases pre) auto
  from rc_CreateFailed.IH [OF p(2)] p(1) show ?case by auto
next
  case (rc_Deleted hist t r res)
  show ?case
  proof (cases pre)
    case Nil
    with rc_Deleted.prems show ?thesis by simp
  next
    case (Cons a pre1)
    with rc_Deleted.prems have a: "a = StorageCreate st r None"
      and r1: "ReleasesDelete cfg name (Version r) res # t = pre1 @ ReleasesDelete c n v dres # post"
      by auto
    show ?thesis
    proof (cases pre1)
      case Nil
      with r1 a Cons show ?thesis by auto
    next
      case (Cons b pre2)
      with r1 have "t = pre2 @ ReleasesDelete c n v dres # post" by auto
      from rc_Deleted.IH [OF this] obtain pre' r' where
        "pre2 = pre' @ [StorageCreate st r' None]" "Version r' = v" "c = cfg" "n = name"
        by blast
      with a Cons \<open>pre = a # pre1\<close> show ?thesis
        by (intro exI [of _ "a # b # pre'"] exI [of _ r']) simp
    qed
  qed
qed

lemma revision_calls_failed_create_next:
  "revision_calls cfg st name hist t \<Longrightarrow> t = pre @ StorageCreate st' r (Some e) # post
     \<Longrightarrow> post = [] \<or> is_create (hd post)"
proof (induction arbitrary: pre rule: revision_calls.induct)
  case rc_Nil
  then show ?case by simp
next
  case (rc_CreateFailed hist t r0 e0)
  show ?case
  proof (cases pre)
    case Nil
    with rc_CreateFailed.prems have "post = t" by simp
    with revision_calls_head [OF rc_CreateFailed.hyps] show ?thesis by simp
  next
    case (Cons a pre1)
    with rc_CreateFailed.prems have "t = pre1 @ StorageCreate st' r (Some e) # post" by simp
    from rc_CreateFailed.IH [OF this] show ?thesis .
  qed
next
  case (rc_Deleted hist t r0 res)
  from rc_Deleted.prems obtain pre1 where
    p1: "pre = StorageCreate st r0 None # pre1"
        "ReleasesDelete cfg name (Version r0) res # t = pre1 @ StorageCreate st' r (Some e) # post"
    by (cases pre) auto
  from p1(2) obtain pre2 where "t = pre2 @ StorageCreate st' r (Some e) # post"
    by (cases pre1) auto
  from rc_Deleted.IH [OF this] show ?case .
qed

lemma revision_calls_create_attempts:
  "revision_calls cfg st name hist t \<Longrightarrow> create_attempts t = hist"
  by (induction rule: revision_calls.induct) simp_all

lemma revision_calls_delete_attempts:
  "revision_calls cfg st name hist t
     \<Longrightarrow> delete_attempts t = map (\<lambda>r. (name, Version r)) (created t)"
  by (induction rule: revision_calls.induct) simp_all

lemma revision_calls_all_ok:
  "revision_calls cfg st name hist t \<Longrightarrow> \<forall>c\<in>set t. \<not> call_failed c
     \<Longrightarrow> t = concat (map (\<lambda>r. [StorageCreate st r None, ReleasesDelete cfg name (Version r) None]) hist)"
proof (induction rule: revision_calls.induct)
  case rc_Nil
  show ?case by simp
next
  case (rc_CreateFailed hist t r e)
  then show ?case by simp
next
  case (rc_Deleted hist t r res)
  then show ?case by (cases res) simp_all
qed

lemma revision_calls_release_call:
  "revision_calls (actionCfg m) st name hist t
     \<Longrightarrow> \<forall>c\<in>set t. release_call m fl name (drv_namespace st) c"
  by (induction rule: revision_calls.induct) simp_all

lemma count_creates_all_ok:
  "length (filter is_create
     (concat (map (\<lambda>r. [StorageCreate st r None, ReleasesDelete cfg name (Version r) None]) hist)))
   = length hist"
  by (induction hist) simp_all

lemma count_deletes_all_ok:
  "length (filter is_delete
     (concat (map (\<lambda>r. [StorageCreate st r None, ReleasesDelete cfg name (Version r) None]) hist)))
   = length hist"
  by (induction hist) simp_all

lemma migrateRelease_unknown:
  "select_storage (to fl) ns = None
     \<Longrightarrow> migrateRelease k fl m name ns s = (Some (''unknown resource type '' @ to fl), s)"
  by (simp add: migrateRelease_def)

lemma migrateRelease_history_failed:
  "select_storage (to fl) ns = Some st
     \<Longrightarrow> history_Run k (actionCfg m) (maxHist fl) name (world s) = (msgs, Inl e)
     \<Longrightarrow> migrateRelease k fl m name ns s
           = (Some e, debug_log msgs (record_call (HistoryRun (actionCfg m) (maxHist fl) name) s))"
  by (simp add: migrateRelease_def)

lemma migrateRelease_history_ok:
  assumes "select_storage (to fl) ns = Some st"
    and "history_Run k (actionCfg m) (maxHist fl) name (world s) = (msgs, Inr hist)"
  shows "\<exists>t. calls (snd (migrateRelease k fl m name ns s))
               = calls s @ HistoryRun (actionCfg m) (maxHist fl) name # t
            \<and> revision_calls (actionCfg m) st name hist t
            \<and> fst (migrateRelease k fl m name ns s)
               = (if \<exists>c\<in>set t. call_failed c then Some (''failed to migrate release '' @ name)
                  else None)"
proof -
  define s1 where "s1 = debug_log msgs (record_call (HistoryRun (actionCfg m) (maxHist fl) name) s)"
  have mr: "migrateRelease k fl m name ns s =
          (if fst (migrate_revisions k m st name hist False s1)
           then Some (''failed to migrate release '' @ name) else None,
           snd (migrate_revisions k m st name hist False s1))"
    using assms by (simp add: migrateRelease_def s1_def split: prod.split)
  have c1: "calls s1 = calls s @ [HistoryRun (actionCfg m) (maxHist fl) name]"
    by (simp add: s1_def)
  from migrate_revisions_calls [of k m st name hist False s1] obtain t where
    t: "calls (snd (migrate_revisions k m st name hist False s1)) = calls s1 @ t"
       "revision_calls (actionCfg m) st name hist t"
       "fst (migrate_revisions k m st name hist False s1) = (\<exists>c\<in>set t. call_failed c)"
    by auto
  show ?thesis
    using t c1 by (intro exI [of _ t]) (simp add: mr)
qed

lemma select_storage_namespace:
  "select_storage t ns = Some st \<Longrightarrow> drv_namespace st = ns"
  by (auto simp: select_storage_def split: if_splits)

text \<open>Whatever branch it takes, the calls of one migrateRelease.\<close>

lemma migrateRelease_calls:
  "\<exists>t. calls (snd (migrateRelease k fl m name ns s)) = calls s @ t
       \<and> (t = [] \<or>
           (\<exists>st hist t'. t = HistoryRun (actionCfg m) (maxHist fl) name # t'
               \<and> select_storage (to fl) ns = Some st
               \<and> revision_calls (actionCfg m) st name hist t'))"
proof (cases "select_storage (to fl) ns")
  case None
  then show ?thesis by (simp add: migrateRelease_unknown)
next
  case (Some st)
  obtain msgs hres where h: "history_Run k (actionCfg m) (maxHist fl) name (world s) = (msgs, hres)"
    by (cases "history_Run k (actionCfg m) (maxHist fl) name (world s)")
  show ?thesis
  proof (cases hres)
    case (Inl e)
    with Some h have "calls (snd (migrateRelease k fl m name ns s))
        = calls s @ [HistoryRun (actionCfg m) (maxHist fl) name]"
      by (simp add: migrateRelease_history_failed)
    moreover have "revision_calls (actionCfg m) st name [] []"
      by (rule revision_calls.intros)
    ultimately show ?thesis using Some by blast
  next
    case (Inr hist)
    with migrateRelease_history_ok [OF Some] h show ?thesis
      using Some by blast
  qed
qed

lemma create_attempts_append:
  "create_attempts (xs @ ys) = create_attempts xs @ create_attempts ys"
  by (induction xs rule: create_attempts.induct) simp_all

text \<open>The calls of the two loops over the listed releases, one segment per release.\<close>

lemma migrateRelease_segment:
  "\<exists>t. calls (snd (migrateRelease k fl m name ns s)) = calls s @ t
       \<and> release_segment m fl name ns t"
proof (cases "select_storage (to fl) ns")
  case None
  then show ?thesis
    by (simp add: migrateRelease_unknown release_segment_def)
next
  case (Some st)
  obtain msgs hres where h: "history_Run k (actionCfg m) (maxHist fl) name (world s) = (msgs, hres)"
    by (cases "history_Run k (actionCfg m) (maxHist fl) name (world s)")
  show ?thesis
  proof (cases hres)
    case (Inl e)
    with h have "migrateRelease k fl m name ns s
           = (Some e, debug_log msgs (record_call (HistoryRun (actionCfg m) (maxHist fl) name) s))"
      by (simp add: migrateRelease_history_failed [OF Some])
    then have "calls (snd (migrateRelease k fl m name ns s))
        = calls s @ [HistoryRun (actionCfg m) (maxHist fl) name]"
      by simp
    moreover have "release_segment m fl name ns [HistoryRun (actionCfg m) (maxHist fl) name]"
      using Some by (simp add: release_segment_def)
    ultimately show ?thesis by blast
  next
    case (Inr hist)
    with h have h': "history_Run k (actionCfg m) (maxHist fl) name (world s) = (msgs, Inr hist)"
      by simp
    from migrateRelease_history_ok [OF Some h'] obtain t where
      t: "calls (snd (migrateRelease k fl m name ns s))
            = calls s @ HistoryRun (actionCfg m) (maxHist fl) name # t"
         "revision_calls (actionCfg m) st name hist t"
      by blast
    from revision_calls_release_call [OF t(2), of fl] select_storage_namespace [OF Some]
    have "\<forall>c\<in>set t. release_call m fl name ns c" by simp
    then have "release_segment m fl name ns (HistoryRun (actionCfg m) (maxHist fl) name # t)"
      using Some by (simp add: release_segment_def list_all_iff)
    with t(1) show ?thesis by blast
  qed
qed

lemma migrateAll_loop_calls:
  "\<exists>segs. calls (migrateAll_loop k fl m releases s) = calls s @ concat segs
         \<and> list_all2 (\<lambda>r seg. release_segment m fl (Name r) (Namespace r) seg) releases segs"
proof (induction releases arbitrary: s)
  case Nil
  show ?case by simp
next
  case (Cons r releases)
  obtain res s1 where mr: "migrateRelease k fl m (Name r) (Namespace r) s = (res, s1)"
    by (cases "migrateRelease k fl m (Name r) (Namespace r) s")
  from migrateRelease_segment [of k fl m "Name r" "Namespace r" s] mr obtain t where
    t: "calls s1 = calls s @ t" "release_segment m fl (Name r) (Namespace r) t"
    by auto
  define s2 where "s2 = (case res of Some e \<Rightarrow> println e s1 | None \<Rightarrow> s1)"
  have step: "migrateAll_loop k fl m (r # releases) s = migrateAll_loop k fl m releases s2"
    using mr by (cases res) (simp_all add: s2_def)
  have c2: "calls s2 = calls s @ t"
    using t(1) by (cases res) (simp_all add: s2_def)
  from Cons.IH [of s2] obtain segs where
    "calls (migrateAll_loop k fl m releases s2) = calls s2 @ concat segs"
    "list_all2 (\<lambda>r seg. release_segment m fl (Name r) (Namespace r) seg) releases segs"
    by blast
  with t(2) c2 step show ?case
    by (intro exI [of _ "t # segs"]) simp
qed

lemma migrateNamespace_loop_filter:
  "migrateNamespace_loop k fl m ns releases s
     = migrateNamespace_loop k fl m ns (filter (\<lambda>r. Namespace r = ns) releases) s"
  by (induction releases arbitrary: s) (simp_all split: prod.split option.split)

lemma migrateNamespace_loop_calls:
  "\<exists>segs. calls (migrateNamespace_loop k fl m ns releases s) = calls s @ concat segs
         \<and> list_all2 (\<lambda>r seg. release_segment m fl (Name r) ns seg)
              (filter (\<lambda>r. Namespace r = ns) releases) segs"
proof (induction releases arbitrary: s)
  case Nil
  show ?case by simp
next
  case (Cons r releases)
  show ?case
  proof (cases "Namespace r = ns")
    case False
    with Cons.IH [of s] show ?thesis by simp
  next
    case True
    obtain res s1 where mr: "migrateRelease k fl m (Name r) ns s = (res, s1)"
      by (cases "migrateRelease k fl m (Name r) ns s")
    from migrateRelease_segment [of k fl m "Name r" ns s] mr obtain t where
      t: "calls s1 = calls s @ t" "release_segment m fl (Name r) ns t"
      by auto
    define s2 where "s2 = (case res of Some e \<Rightarrow> println e s1 | None \<Rightarrow> s1)"
    have step: "migrateNamespace_loop k fl m ns (r # releases) s
                  = migrateNamespace_loop k fl m ns releases s2"
      using mr True by (cases res) (simp_all add: s2_def)
    have c2: "calls s2 = calls s @ t"
      using t(1) by (cases res) (simp_all add: s2_def)
    from Cons.IH [of s2] obtain segs where
      "calls (migrateNamespace_loop k fl m ns releases s2) = calls s2 @ concat segs"
      "list_all2 (\<lambda>r seg. release_segment m fl (Name r) ns seg)
              (filter (\<lambda>r. Namespace r = ns) releases) segs"
      by blast
    with t(2) c2 step True show ?thesis
      by (intro exI [of _ "t # segs"]) simp
  qed
qed

lemma list_all2_concat_member:
  "list_all2 P xs segs \<Longrightarrow> c \<in> set (concat segs) \<Longrightarrow> \<exists>x\<in>set xs. \<exists>seg. P x seg \<and> c \<in> set seg"
  by (induction rule: list_all2_induct) auto

lemma release_segment_call:
  "release_segment m fl name ns t \<Longrightarrow> c \<in> set t \<Longrightarrow> release_call m fl name ns c"
  by (simp add: release_segment_def list_all_iff)

section \<open>Runs on the small cluster\<close>

lemmas fixture_defs = mem_sdk_def state0_def cluster0_def rel_def flags0_def migrator0_def cfg0_def
  secrets_in_def
lemmas run_defs = migrateRelease_def select_storage_def println_def debug_log_def record_call_def
  new_calls_def show_int_def show_nat.simps

lemma web_run_calls:
  "new_calls state0 (snd web_run) =
     [HistoryRun (cfg0 ''default'') 3 ''web'',
      StorageCreate (secrets_in ''default'') (rel ''web'' ''default'' 1) None,
      ReleasesDelete (cfg0 ''default'') ''web'' 1 None,
      StorageCreate (secrets_in ''default'') (rel ''web'' ''default'' 2) (Some ''release: already exists''),
      StorageCreate (secrets_in ''default'') (rel ''web'' ''default'' 3) None,
      ReleasesDelete (cfg0 ''default'') ''web'' 3 (Some ''forbidden'')]"
  by (simp add: web_run_def fixture_defs run_defs)

lemma web_run_result: "fst web_run = Some ''failed to migrate release web''"
  by (simp add: web_run_def fixture_defs run_defs)

lemma web_history:
  "history_Run mem_sdk (actionCfg (migrator0 ''default'')) (maxHist flags0) ''web'' (world state0)
     = ([''getting history for release web''],
        Inr [rel ''web'' ''default'' 1, rel ''web'' ''default'' 2, rel ''web'' ''default'' 3])"
  by (simp add: fixture_defs)

lemma db_history:
  "history_Run mem_sdk (actionCfg (migrator0 ''prod'')) (maxHist flags0) ''db'' (world state0)
     = ([''getting history for release db''], Inr [rel ''db'' ''prod'' 1, rel ''db'' ''prod'' 2])"
  by (simp add: fixture_defs)

lemma db_run_calls:
  "new_calls state0 (snd db_run) =
     [HistoryRun (cfg0 ''prod'') 3 ''db'',
      StorageCreate (secrets_in ''prod'') (rel ''db'' ''prod'' 1) None,
      ReleasesDelete (cfg0 ''prod'') ''db'' 1 None,
      StorageCreate (secrets_in ''prod'') (rel ''db'' ''prod'' 2) None,
      ReleasesDelete (cfg0 ''prod'') ''db'' 2 None]"
  by (simp add: db_run_def fixture_defs run_defs)

lemma select_secret: "select_storage (to flags0) ns = Some (secrets_in ns)"
  by (simp add: select_storage_def flags0_def secrets_in_def)

lemmas loop_defs = migrateNamespace_def migrateAll_def NewMigrator_def main_def exit_on_error_def
  flag_Arg_def
lemmas fixture1_defs = cluster1_def state1_def flags1_def getenv0_def

lemma namespace_run_calls:
  "new_calls state1 (snd namespace_run) =
     [ListRun (cfg0 []) False,
      HistoryRun (cfg0 []) 3 ''db'',
      StorageCreate (secrets_in ''prod'') (rel ''db'' ''prod'' 1) None,
      ReleasesDelete (cfg0 []) ''db'' 1 None]"
  by (simp add: namespace_run_def fixture_defs fixture1_defs run_defs loop_defs)

lemma all_run_calls:
  "new_calls state1 (snd all_run) =
     [ListRun (cfg0 []) True,
      HistoryRun (cfg0 []) 3 ''web'',
      StorageCreate (secrets_in ''default'') (rel ''web'' ''default'' 1) None,
      ReleasesDelete (cfg0 []) ''web'' 1 None,
      HistoryRun (cfg0 []) 3 ''db'',
      StorageCreate (secrets_in ''prod'') (rel ''db'' ''prod'' 1) None,
      ReleasesDelete (cfg0 []) ''db'' 1 None]"
  by (simp add: all_run_def fixture_defs fixture1_defs run_defs loop_defs)

lemma list_state1:
  "list_Run mem_sdk (actionCfg (migrator0 [])) b (world state1)
     = ([], Inr [rel ''web'' ''default'' 1, rel ''db'' ''prod'' 1])"
  by (simp add: fixture_defs fixture1_defs)

lemma new_migrator1:
  "NewMigrator mem_sdk getenv0 (kubeconfig flags1) (namespace flags1) state1
     = (Inr (migrator0 []), state1)"
  by (simp add: fixture_defs fixture1_defs loop_defs debug_log_def)

lemma new_migrator0:
  "NewMigrator mem_sdk getenv0 (kubeconfig flags0) (namespace flags0) state0
     = (Inr (migrator0 ''default''), state0)"
  by (simp add: fixture_defs fixture1_defs loop_defs debug_log_def)

lemma new_migrator_null:
  "NewMigrator mem_sdk getenv0 (kubeconfig flags_null) (namespace flags_null) state0
     = (Inr migrator_null, state0)"
  by (simp add: fixture_defs fixture1_defs loop_defs debug_log_def flags_null_def migrator_null_def)

lemma new_migrator_failed:
  "NewMigrator mem_sdk getenv0 (kubeconfig (flags0\<lparr>kubeconfig := []\<rparr>))
       (namespace (flags0\<lparr>kubeconfig := []\<rparr>)) state0
     = (Inl ''invalid configuration'', state0)"
  by (simp add: fixture_defs fixture1_defs loop_defs)

lemma list_null:
  "migrateNamespace mem_sdk flags_null migrator_null (namespace flags_null) state0
     = (Some ''Kubernetes cluster unreachable'',
        debug_log [] (record_call (ListRun (actionCfg migrator_null) False) state0))"
  "migrateAll mem_sdk flags_null migrator_null state0
     = (Some ''Kubernetes cluster unreachable'',
        debug_log [] (record_call (ListRun (actionCfg migrator_null) True) state0))"
  by (simp_all add: fixture_defs loop_defs flags_null_def migrator_null_def)

lemma NewMigrator_namespace:
  "NewMigrator k getenv path ns s0 = (Inr m, s) \<Longrightarrow> cfg_namespace (actionCfg m) = ns"
  by (auto simp: NewMigrator_def split: sum.splits prod.splits option.splits)

section \<open>Migrating one release\<close>

text \<open>
  Claim C1.  For every revision \<^verbatim>\<open>migrateRelease\<close> processes, the delete of that
  revision from the source driver is attempted only after the create of that same
  revision on the target driver has succeeded, and a revision whose create failed is
  not deleted.  In the calls of a run: every delete comes directly after a successful
  create of a revision with the deleted version, on the driver of the namespace of the
  call, and it goes through the Migrator's configuration under the release name; the
  call after a failed create, if there is one, is the next create.
\<close>

theorem delete_only_after_successful_create:
  assumes "migrateRelease k fl m releaseName ns s = (res, s')"
  shows "calls s' = calls s @ new_calls s s'
     \<and> (\<forall>pre post cfg n v dres.
           new_calls s s' = pre @ ReleasesDelete cfg n v dres # post \<longrightarrow>
             (\<exists>pre' st r. pre = pre' @ [StorageCreate st r None] \<and> Version r = v
                 \<and> drv_namespace st = ns \<and> cfg = actionCfg m \<and> n = releaseName))
     \<and> (\<forall>pre post st r e.
           new_calls s s' = pre @ StorageCreate st r (Some e) # post \<longrightarrow>
             post = [] \<or> is_create (hd post))"
proof -
  from migrateRelease_calls [of k fl m releaseName ns s] assms obtain t where
    t: "calls s' = calls s @ t"
    and shape: "t = [] \<or> (\<exists>st hist t'. t = HistoryRun (actionCfg m) (maxHist fl) releaseName # t'
                 \<and> select_storage (to fl) ns = Some st
                 \<and> revision_calls (actionCfg m) st releaseName hist t')"
    by auto
  have nc: "new_calls s s' = t" using t by simp
  have del: "\<exists>pre' st r. pre = pre' @ [StorageCreate st r None] \<and> Version r = v
                 \<and> drv_namespace st = ns \<and> cfg = actionCfg m \<and> n = releaseName"
    if d: "t = pre @ ReleasesDelete cfg n v dres # post" for pre post cfg n v dres
  proof -
    from shape d obtain st hist t' where
      h: "t = HistoryRun (actionCfg m) (maxHist fl) releaseName # t'"
         "select_storage (to fl) ns = Some st"
         "revision_calls (actionCfg m) st releaseName hist t'"
      by auto
    from h(1) d obtain pre1 where
      p: "pre = HistoryRun (actionCfg m) (maxHist fl) releaseName # pre1"
         "t' = pre1 @ ReleasesDelete cfg n v dres # post"
      by (cases pre) auto
    from revision_calls_delete_preceded [OF h(3) p(2)] obtain pre' r where
      "pre1 = pre' @ [StorageCreate st r None]" "Version r = v" "cfg = actionCfg m" "n = releaseName"
      by blast
    with p(1) select_storage_namespace [OF h(2)] show ?thesis
      by (intro exI [of _ "HistoryRun (actionCfg m) (maxHist fl) releaseName # pre'"]
                exI [of _ st] exI [of _ r]) simp
  qed
  have crt: "post = [] \<or> is_create (hd post)"
    if c: "t = pre @ StorageCreate st r (Some e) # post" for pre post st r e
  proof -
    from shape c obtain st0 hist t' where
      h: "t = HistoryRun (actionCfg m) (maxHist fl) releaseName # t'"
         "revision_calls (actionCfg m) st0 releaseName hist t'"
      by auto
    from h(1) c obtain pre1 where "t' = pre1 @ StorageCreate st r (Some e) # post"
      by (cases pre) auto
    from revision_calls_failed_create_next [OF h(2) this] show ?thesis .
  qed
  from t nc del crt show ?thesis by blast
qed

theorem delete_only_after_successful_create_witness:
  "new_calls state0 (snd web_run)
     = [HistoryRun (cfg0 ''default'') 3 ''web'',
        StorageCreate (secrets_in ''default'') (rel ''web'' ''default'' 1) None]
       @ ReleasesDelete (cfg0 ''default'') ''web'' 1 None
       # [StorageCreate (secrets_in ''default'') (rel ''web'' ''default'' 2)
            (Some ''release: already exists''),
          StorageCreate (secrets_in ''default'') (rel ''web'' ''default'' 3) None,
          ReleasesDelete (cfg0 ''default'') ''web'' 3 (Some ''forbidden'')]
   \<and> (\<exists>pre' st r.
         [HistoryRun (cfg0 ''default'') 3 ''web'',
          StorageCreate (secrets_in ''default'') (rel ''web'' ''default'' 1) None]
           = pre' @ [StorageCreate st r None]
         \<and> Version r = 1 \<and> drv_namespace st = ''default''
         \<and> cfg0 ''default'' = actionCfg (migrator0 ''default'') \<and> ''web'' = ''web'')
   \<and> new_calls state0 (snd web_run)
     = [HistoryRun (cfg0 ''default'') 3 ''web'',
        StorageCreate (secrets_in ''default'') (rel ''web'' ''default'' 1) None,
        ReleasesDelete (cfg0 ''default'') ''web'' 1 None]
       @ StorageCreate (secrets_in ''default'') (rel ''web'' ''default'' 2)
            (Some ''release: already exists'')
       # [StorageCreate (secrets_in ''default'') (rel ''web'' ''default'' 3) None,
          ReleasesDelete (cfg0 ''default'') ''web'' 3 (Some ''forbidden'')]
   \<and> is_create (hd [StorageCreate (secrets_in ''default'') (rel ''web'' ''default'' 3) None,
                      ReleasesDelete (cfg0 ''default'') ''web'' 3 (Some ''forbidden'')])"
proof -
  have run: "migrateRelease mem_sdk flags0 (migrator0 ''default'') ''web'' ''default'' state0
               = (fst web_run, snd web_run)"
    by (simp add: web_run_def)
  have nc: "new_calls state0 (snd web_run)
     = [HistoryRun (cfg0 ''default'') 3 ''web'',
        StorageCreate (secrets_in ''default'') (rel ''web'' ''default'' 1) None]
       @ ReleasesDelete (cfg0 ''default'') ''web'' 1 None
       # [StorageCreate (secrets_in ''default'') (rel ''web'' ''default'' 2)
            (Some ''release: already exists''),
          StorageCreate (secrets_in ''default'') (rel ''web'' ''default'' 3) None,
          ReleasesDelete (cfg0 ''default'') ''web'' 3 (Some ''forbidden'')]"
    by (simp add: web_run_calls)
  have nc': "new_calls state0 (snd web_run)
     = [HistoryRun (cfg0 ''default'') 3 ''web'',
        StorageCreate (secrets_in ''default'') (rel ''web'' ''default'' 1) None,
        ReleasesDelete (cfg0 ''default'') ''web'' 1 None]
       @ StorageCreate (secrets_in ''default'') (rel ''web'' ''default'' 2)
            (Some ''release: already exists'')
       # [StorageCreate (secrets_in ''default'') (rel ''web'' ''default'' 3) None,
          ReleasesDelete (cfg0 ''default'') ''web'' 3 (Some ''forbidden'')]"
    by (simp add: web_run_calls)
  note inst = delete_only_after_successful_create [OF run]
  from inst nc have a: "\<exists>pre' st r.
         [HistoryRun (cfg0 ''default'') 3 ''web'',
          StorageCreate (secrets_in ''default'') (rel ''web'' ''default'' 1) None]
           = pre' @ [StorageCreate st r None]
         \<and> Version r = 1 \<and> drv_namespace st = ''default''
         \<and> cfg0 ''default'' = actionCfg (migrator0 ''default'') \<and> ''web'' = ''web''"
    by blast
  from inst nc' have b: "is_create (hd [StorageCreate (secrets_in ''default'') (rel ''web'' ''default'' 3) None,
                      ReleasesDelete (cfg0 ''default'') ''web'' 3 (Some ''forbidden'')])"
    by simp
  from nc a nc' b show ?thesis by blast
qed

text \<open>
  Claim C3.  When the create of a revision fails, its delete is not attempted and the
  loop goes on with the next revision of the history; neither a failed create nor a
  failed delete stops the loop.  In the calls of a run whose history fetch returned
  \<open>hist\<close>: the creates attempted are the revisions of \<open>hist\<close>, each once and in order,
  whatever failed; the deletes attempted are those of the revisions whose create
  succeeded; the call after a failed create is the next create (or there is none), and
  after a failed create or a failed delete the rest of the history is still attempted.
\<close>

theorem failed_revision_does_not_stop_loop:
  assumes "select_storage (to fl) ns = Some st"
    and "history_Run k (actionCfg m) (maxHist fl) releaseName (world s) = (msgs, Inr hist)"
    and "migrateRelease k fl m releaseName ns s = (res, s')"
  shows "create_attempts (new_calls s s') = hist
     \<and> delete_attempts (new_calls s s')
         = map (\<lambda>r. (releaseName, Version r)) (created (new_calls s s'))
     \<and> (\<forall>pre post st' r e.
           new_calls s s' = pre @ StorageCreate st' r (Some e) # post \<longrightarrow>
             (post = [] \<or> is_create (hd post))
             \<and> create_attempts post = drop (Suc (length (create_attempts pre))) hist)
     \<and> (\<forall>pre post cfg n v e.
           new_calls s s' = pre @ ReleasesDelete cfg n v (Some e) # post \<longrightarrow>
             create_attempts post = drop (length (create_attempts pre)) hist)"
proof -
  from migrateRelease_history_ok [OF assms(1,2)] assms(3) obtain t where
    t: "calls s' = calls s @ HistoryRun (actionCfg m) (maxHist fl) releaseName # t"
       "revision_calls (actionCfg m) st releaseName hist t"
    by auto
  have nc: "new_calls s s' = HistoryRun (actionCfg m) (maxHist fl) releaseName # t"
    using t(1) by simp
  have att: "create_attempts (new_calls s s') = hist"
    using revision_calls_create_attempts [OF t(2)] by (simp add: nc)
  have del: "delete_attempts (new_calls s s')
         = map (\<lambda>r. (releaseName, Version r)) (created (new_calls s s'))"
    using revision_calls_delete_attempts [OF t(2)] by (simp add: nc)
  have c: "(post = [] \<or> is_create (hd post))
             \<and> create_attempts post = drop (Suc (length (create_attempts pre))) hist"
    if d: "new_calls s s' = pre @ StorageCreate st' r (Some e) # post" for pre post st' r e
  proof -
    from d nc obtain pre1 where "t = pre1 @ StorageCreate st' r (Some e) # post"
      by (cases pre) auto
    from revision_calls_failed_create_next [OF t(2) this]
    have "post = [] \<or> is_create (hd post)" .
    moreover have "hist = create_attempts pre @ r # create_attempts post"
      using att by (simp add: d create_attempts_append)
    then have "drop (Suc (length (create_attempts pre))) hist = create_attempts post"
      by simp
    ultimately show ?thesis by simp
  qed
  have e: "create_attempts post = drop (length (create_attempts pre)) hist"
    if d: "new_calls s s' = pre @ ReleasesDelete cfg n v (Some e) # post" for pre post cfg n v e
  proof -
    have "hist = create_attempts pre @ create_attempts post"
      using att by (simp add: d create_attempts_append)
    then show ?thesis by simp
  qed
  from att del c e show ?thesis by blast
qed

theorem failed_revision_does_not_stop_loop_witness:
  "create_attempts (new_calls state0 (snd web_run))
     = [rel ''web'' ''default'' 1, rel ''web'' ''default'' 2, rel ''web'' ''default'' 3]
   \<and> delete_attempts (new_calls state0 (snd web_run)) = [(''web'', 1), (''web'', 3)]
   \<and> created (new_calls state0 (snd web_run))
       = [rel ''web'' ''default'' 1, rel ''web'' ''default'' 3]
   \<and> create_attempts
        [StorageCreate (secrets_in ''default'') (rel ''web'' ''default'' 3) None,
         ReleasesDelete (cfg0 ''default'') ''web'' 3 (Some ''forbidden'')]
       = drop 2 [rel ''web'' ''default'' 1, rel ''web'' ''default'' 2, rel ''web'' ''default'' 3]
   \<and> create_attempts []
       = drop 3 [rel ''web'' ''default'' 1, rel ''web'' ''default'' 2, rel ''web'' ''default'' 3]"
proof -
  have run: "migrateRelease mem_sdk flags0 (migrator0 ''default'') ''web'' ''default'' state0
               = (fst web_run, snd web_run)"
    by (simp add: web_run_def)
  note inst = failed_revision_does_not_stop_loop [OF select_secret web_history run]
  have nc1: "new_calls state0 (snd web_run)
     = [HistoryRun (cfg0 ''default'') 3 ''web'',
        StorageCreate (secrets_in ''default'') (rel ''web'' ''default'' 1) None,
        ReleasesDelete (cfg0 ''default'') ''web'' 1 None]
       @ StorageCreate (secrets_in ''default'') (rel ''web'' ''default'' 2)
            (Some ''release: already exists'')
       # [StorageCreate (secrets_in ''default'') (rel ''web'' ''default'' 3) None,
          ReleasesDelete (cfg0 ''default'') ''web'' 3 (Some ''forbidden'')]"
    by (simp add: web_run_calls)
  have nc2: "new_calls state0 (snd web_run)
     = [HistoryRun (cfg0 ''default'') 3 ''web'',
        StorageCreate (secrets_in ''default'') (rel ''web'' ''default'' 1) None,
        ReleasesDelete (cfg0 ''default'') ''web'' 1 None,
        StorageCreate (secrets_in ''default'') (rel ''web'' ''default'' 2)
            (Some ''release: already exists''),
        StorageCreate (secrets_in ''default'') (rel ''web'' ''default'' 3) None]
       @ ReleasesDelete (cfg0 ''default'') ''web'' 3 (Some ''forbidden'') # []"
    by (simp add: web_run_calls)
  from inst have a: "create_attempts (new_calls state0 (snd web_run))
     = [rel ''web'' ''default'' 1, rel ''web'' ''default'' 2, rel ''web'' ''default'' 3]"
    by blast
  from inst have "delete_attempts (new_calls state0 (snd web_run))
         = map (\<lambda>r. (''web'', Version r)) (created (new_calls state0 (snd web_run)))"
    by blast
  moreover have cr: "created (new_calls state0 (snd web_run))
       = [rel ''web'' ''default'' 1, rel ''web'' ''default'' 3]"
    by (simp add: web_run_calls)
  ultimately have b: "delete_attempts (new_calls state0 (snd web_run)) = [(''web'', 1), (''web'', 3)]"
    by (simp add: rel_def)
  from inst nc1 have c: "create_attempts
        [StorageCreate (secrets_in ''default'') (rel ''web'' ''default'' 3) None,
         ReleasesDelete (cfg0 ''default'') ''web'' 3 (Some ''forbidden'')]
       = drop (Suc (length (create_attempts [HistoryRun (cfg0 ''default'') 3 ''web'',
        StorageCreate (secrets_in ''default'') (rel ''web'' ''default'' 1) None,
        ReleasesDelete (cfg0 ''default'') ''web'' 1 None])))
          [rel ''web'' ''default'' 1, rel ''web'' ''default'' 2, rel ''web'' ''default'' 3]"
    by blast
  from inst nc2 have d: "create_attempts []
       = drop (length (create_attempts [HistoryRun (cfg0 ''default'') 3 ''web'',
        StorageCreate (secrets_in ''default'') (rel ''web'' ''default'' 1) None,
        ReleasesDelete (cfg0 ''default'') ''web'' 1 None,
        StorageCreate (secrets_in ''default'') (rel ''web'' ''default'' 2)
            (Some ''release: already exists''),
        StorageCreate (secrets_in ''default'') (rel ''web'' ''default'' 3) None]))
          [rel ''web'' ''default'' 1, rel ''web'' ''default'' 2, rel ''web'' ''default'' 3]"
    by blast
  from a b cr c d show ?thesis by simp
qed

text \<open>
  Claim C4.  When the target driver is selected and the history fetch succeeds,
  \<^verbatim>\<open>migrateRelease\<close> returns an error exactly when a create or a delete of some
  revision failed; when all of them succeed it returns \<^verbatim>\<open>nil\<close>, otherwise the
  error names the release.
\<close>

theorem error_iff_a_revision_failed:
  assumes "select_storage (to fl) ns = Some st"
    and "history_Run k (actionCfg m) (maxHist fl) releaseName (world s) = (msgs, Inr hist)"
    and "migrateRelease k fl m releaseName ns s = (res, s')"
  shows "(res \<noteq> None) = (\<exists>c\<in>set (new_calls s s'). call_failed c)
     \<and> ((\<forall>c\<in>set (new_calls s s'). \<not> call_failed c) \<longrightarrow> res = None)
     \<and> ((\<exists>c\<in>set (new_calls s s'). call_failed c) \<longrightarrow>
           res = Some (''failed to migrate release '' @ releaseName))"
proof -
  from migrateRelease_history_ok [OF assms(1,2)] assms(3) obtain t where
    t: "calls s' = calls s @ HistoryRun (actionCfg m) (maxHist fl) releaseName # t"
       "res = (if \<exists>c\<in>set t. call_failed c then Some (''failed to migrate release '' @ releaseName)
               else None)"
    by auto
  have nc: "new_calls s s' = HistoryRun (actionCfg m) (maxHist fl) releaseName # t"
    using t(1) by simp
  show ?thesis
    by (simp add: nc t(2))
qed

theorem error_iff_a_revision_failed_witness:
  "fst web_run = Some ''failed to migrate release web''
   \<and> (\<exists>c\<in>set (new_calls state0 (snd web_run)). call_failed c)
   \<and> fst db_run = None
   \<and> \<not> (\<exists>c\<in>set (new_calls state0 (snd db_run)). call_failed c)"
proof -
  have run: "migrateRelease mem_sdk flags0 (migrator0 ''default'') ''web'' ''default'' state0
               = (fst web_run, snd web_run)"
    by (simp add: web_run_def)
  have run': "migrateRelease mem_sdk flags0 (migrator0 ''prod'') ''db'' ''prod'' state0
               = (fst db_run, snd db_run)"
    by (simp add: db_run_def)
  have bad: "\<exists>c\<in>set (new_calls state0 (snd web_run)). call_failed c"
    by (simp add: web_run_calls)
  have good: "\<not> (\<exists>c\<in>set (new_calls state0 (snd db_run)). call_failed c)"
    by (simp add: db_run_calls)
  from error_iff_a_revision_failed [OF select_secret web_history run] bad
  have "fst web_run = Some ''failed to migrate release web''" by simp
  moreover from error_iff_a_revision_failed [OF select_secret db_history run'] good
  have "fst db_run = None" by simp
  ultimately show ?thesis using bad good by simp
qed

text \<open>
  Claim C6.  When the value of \<^verbatim>\<open>-to\<close> is not a recognised resource kind,
  \<^verbatim>\<open>migrateRelease\<close> returns an error and leaves the state as it was: no history is
  fetched, nothing is written to a target driver, nothing is deleted from the source
  and nothing is printed.
\<close>

theorem unknown_target_kind_changes_nothing:
  assumes "to fl \<notin> {''configmap'', ''configmaps'', ''secret'', ''secrets''}"
  shows "migrateRelease k fl m releaseName ns s = (Some (''unknown resource type '' @ to fl), s)"
proof -
  have "select_storage (to fl) ns = None"
    using assms by (simp add: select_storage_def)
  then show ?thesis by (rule migrateRelease_unknown)
qed

theorem unknown_target_kind_changes_nothing_witness:
  "to (flags0\<lparr>to := ''pod''\<rparr>) \<notin> {''configmap'', ''configmaps'', ''secret'', ''secrets''}
   \<and> migrateRelease mem_sdk (flags0\<lparr>to := ''pod''\<rparr>) (migrator0 ''default'') ''web'' ''default'' state0
       = (Some ''unknown resource type pod'', state0)"
proof -
  have h: "to (flags0\<lparr>to := ''pod''\<rparr>) \<notin> {''configmap'', ''configmaps'', ''secret'', ''secrets''}"
    by simp
  from unknown_target_kind_changes_nothing [OF h, of mem_sdk "migrator0 ''default''" "''web''" "''default''" state0]
  show ?thesis using h by simp
qed


section \<open>Migrating a namespace and a cluster\<close>

text \<open>
  Claim C10.  \<^verbatim>\<open>migrateAll\<close> calls \<^verbatim>\<open>migrateRelease\<close> with each listed release's own
  namespace, so the creates for a release go to a driver on that release's namespace,
  while every history fetch goes through the one action configuration of the
  Migrator, which \<^verbatim>\<open>NewMigrator\<close> initialised with the value of \<^verbatim>\<open>-namespace\<close>.
\<close>

theorem migrateAll_release_namespace_one_configuration:
  assumes "NewMigrator k getenv (kubeconfig fl) (namespace fl) s0 = (Inr m, s)"
    and "list_Run k (actionCfg m) True (world s) = (msgs, Inr releases)"
    and "migrateAll k fl m s = (res, s')"
  shows "cfg_namespace (actionCfg m) = namespace fl
     \<and> (\<exists>segs. new_calls s s' = ListRun (actionCfg m) True # concat segs
           \<and> list_all2 (\<lambda>r seg. release_segment m fl (Name r) (Namespace r) seg) releases segs)
     \<and> (\<forall>cfg mx n. HistoryRun cfg mx n \<in> set (new_calls s s') \<longrightarrow>
           cfg = actionCfg m \<and> cfg_namespace cfg = namespace fl
           \<and> (\<exists>r\<in>set releases. Name r = n))
     \<and> (\<forall>st r cres. StorageCreate st r cres \<in> set (new_calls s s') \<longrightarrow>
           (\<exists>r'\<in>set releases. drv_namespace st = Namespace r'))"
proof -
  have ns: "cfg_namespace (actionCfg m) = namespace fl"
    by (rule NewMigrator_namespace [OF assms(1)])
  define s1 where "s1 = debug_log msgs (record_call (ListRun (actionCfg m) True) s)"
  have run: "s' = migrateAll_loop k fl m releases s1"
    using assms(2,3) by (simp add: migrateAll_def s1_def)
  from migrateAll_loop_calls [of k fl m releases s1] run obtain segs where
    segs: "calls s' = calls s1 @ concat segs"
      "list_all2 (\<lambda>r seg. release_segment m fl (Name r) (Namespace r) seg) releases segs"
    by auto
  have nc: "new_calls s s' = ListRun (actionCfg m) True # concat segs"
    using segs(1) by (simp add: s1_def)
  have member: "\<exists>r\<in>set releases. release_call m fl (Name r) (Namespace r) c"
    if "c \<in> set (concat segs)" for c
  proof -
    from list_all2_concat_member [OF segs(2) that] obtain r seg where
      "r \<in> set releases" "release_segment m fl (Name r) (Namespace r) seg" "c \<in> set seg"
      by blast
    then show ?thesis
      by (auto dest: release_segment_call)
  qed
  have hs: "cfg = actionCfg m \<and> cfg_namespace cfg = namespace fl \<and> (\<exists>r\<in>set releases. Name r = n)"
    if "HistoryRun cfg mx n \<in> set (new_calls s s')" for cfg mx n
    using that member [of "HistoryRun cfg mx n"] ns by (auto simp: nc)
  have cr: "\<exists>r'\<in>set releases. drv_namespace st = Namespace r'"
    if "StorageCreate st r cres \<in> set (new_calls s s')" for st r cres
    using that member [of "StorageCreate st r cres"] by (auto simp: nc)
  from ns nc segs(2) hs cr show ?thesis by blast
qed

theorem migrateAll_release_namespace_one_configuration_witness:
  "cfg_namespace (actionCfg (migrator0 [])) = namespace flags1
   \<and> (\<exists>segs. new_calls state1 (snd all_run) = ListRun (actionCfg (migrator0 [])) True # concat segs
          \<and> list_all2 (\<lambda>r seg. release_segment (migrator0 []) flags1 (Name r) (Namespace r) seg)
               [rel ''web'' ''default'' 1, rel ''db'' ''prod'' 1] segs)
   \<and> new_calls state1 (snd all_run)
       = [ListRun (cfg0 []) True,
          HistoryRun (cfg0 []) 3 ''web'',
          StorageCreate (secrets_in ''default'') (rel ''web'' ''default'' 1) None,
          ReleasesDelete (cfg0 []) ''web'' 1 None,
          HistoryRun (cfg0 []) 3 ''db'',
          StorageCreate (secrets_in ''prod'') (rel ''db'' ''prod'' 1) None,
          ReleasesDelete (cfg0 []) ''db'' 1 None]
   \<and> cfg0 [] = actionCfg (migrator0 []) \<and> cfg_namespace (cfg0 []) = namespace flags1
   \<and> (\<exists>r'\<in>set [rel ''web'' ''default'' 1, rel ''db'' ''prod'' 1].
         drv_namespace (secrets_in ''prod'') = Namespace r')"
proof -
  have run: "migrateAll mem_sdk flags1 (migrator0 []) state1 = (fst all_run, snd all_run)"
    by (simp add: all_run_def)
  note inst = migrateAll_release_namespace_one_configuration [OF new_migrator1 list_state1 run]
  have h: "HistoryRun (cfg0 []) 3 ''db'' \<in> set (new_calls state1 (snd all_run))"
    by (simp add: all_run_calls)
  have c: "StorageCreate (secrets_in ''prod'') (rel ''db'' ''prod'' 1) None
             \<in> set (new_calls state1 (snd all_run))"
    by (simp add: all_run_calls)
  from inst h have "cfg0 [] = actionCfg (migrator0 []) \<and> cfg_namespace (cfg0 []) = namespace flags1"
    by blast
  moreover from inst c have "\<exists>r'\<in>set [rel ''web'' ''default'' 1, rel ''db'' ''prod'' 1].
         drv_namespace (secrets_in ''prod'') = Namespace r'"
    by blast
  ultimately show ?thesis
    using inst all_run_calls by simp
qed

section \<open>Exit codes\<close>

text \<open>
  Claim C8.  On every top-level error the process prints the error's message on
  standard output and exits with code 1: a missing subcommand, a failed construction
  of the Migrator, an unknown subcommand, a missing release name, and an error
  returned by \<^verbatim>\<open>migrateRelease\<close>, \<^verbatim>\<open>migrateNamespace\<close> or \<^verbatim>\<open>migrateAll\<close>.  The
  message is the last line printed, after whatever the run printed before.
\<close>

theorem top_level_error_prints_and_exits_1:
  "(flag_Arg args 0 = [] \<longrightarrow>
      main k getenv fl args s = (println ''subprogram is required'' s, 1))
   \<and> (\<forall>e s1. flag_Arg args 0 \<noteq> []
         \<and> NewMigrator k getenv (kubeconfig fl) (namespace fl) s = (Inl e, s1) \<longrightarrow>
           main k getenv fl args s = (println e s1, 1))
   \<and> (\<forall>mg s1. NewMigrator k getenv (kubeconfig fl) (namespace fl) s = (Inr mg, s1)
         \<and> flag_Arg args 0 \<notin> {[], ''release'', ''namespace'', ''all''} \<longrightarrow>
           main k getenv fl args s
             = (println (''unknown subprogram '' @ flag_Arg args 0) s1, 1))
   \<and> (\<forall>mg s1. NewMigrator k getenv (kubeconfig fl) (namespace fl) s = (Inr mg, s1)
         \<and> flag_Arg args 0 = ''release'' \<and> flag_Arg args 1 = [] \<longrightarrow>
           main k getenv fl args s = (println ''release name is required'' s1, 1))
   \<and> (\<forall>mg s1 e s2. NewMigrator k getenv (kubeconfig fl) (namespace fl) s = (Inr mg, s1)
         \<and> flag_Arg args 0 = ''release'' \<and> flag_Arg args 1 \<noteq> []
         \<and> migrateRelease k fl mg (flag_Arg args 1) (namespace fl) s1 = (Some e, s2) \<longrightarrow>
           main k getenv fl args s = (println e s2, 1))
   \<and> (\<forall>mg s1 e s2. NewMigrator k getenv (kubeconfig fl) (namespace fl) s = (Inr mg, s1)
         \<and> flag_Arg args 0 = ''namespace''
         \<and> migrateNamespace k fl mg (namespace fl) s1 = (Some e, s2) \<longrightarrow>
           main k getenv fl args s = (println e s2, 1))
   \<and> (\<forall>mg s1 e s2. NewMigrator k getenv (kubeconfig fl) (namespace fl) s = (Inr mg, s1)
         \<and> flag_Arg args 0 = ''all''
         \<and> migrateAll k fl mg s1 = (Some e, s2) \<longrightarrow>
           main k getenv fl args s = (println e s2, 1))"
proof (intro conjI allI impI)
  assume "flag_Arg args 0 = []"
  then show "main k getenv fl args s = (println ''subprogram is required'' s, 1)"
    by (simp add: main_def)
next
  fix e s1
  assume "flag_Arg args 0 \<noteq> []
            \<and> NewMigrator k getenv (kubeconfig fl) (namespace fl) s = (Inl e, s1)"
  then show "main k getenv fl args s = (println e s1, 1)"
    by (simp add: main_def)
next
  fix mg s1
  assume "NewMigrator k getenv (kubeconfig fl) (namespace fl) s = (Inr mg, s1)
            \<and> flag_Arg args 0 \<notin> {[], ''release'', ''namespace'', ''all''}"
  then show "main k getenv fl args s = (println (''unknown subprogram '' @ flag_Arg args 0) s1, 1)"
    by (simp add: main_def exit_on_error_def)
next
  fix mg s1
  assume "NewMigrator k getenv (kubeconfig fl) (namespace fl) s = (Inr mg, s1)
            \<and> flag_Arg args 0 = ''release'' \<and> flag_Arg args 1 = []"
  then show "main k getenv fl args s = (println ''release name is required'' s1, 1)"
    by (simp add: main_def)
next
  fix mg s1 e s2
  assume "NewMigrator k getenv (kubeconfig fl) (namespace fl) s = (Inr mg, s1)
            \<and> flag_Arg args 0 = ''release'' \<and> flag_Arg args 1 \<noteq> []
            \<and> migrateRelease k fl mg (flag_Arg args 1) (namespace fl) s1 = (Some e, s2)"
  then show "main k getenv fl args s = (println e s2, 1)"
    by (simp add: main_def exit_on_error_def)
next
  fix mg s1 e s2
  assume "NewMigrator k getenv (kubeconfig fl) (namespace fl) s = (Inr mg, s1)
            \<and> flag_Arg args 0 = ''namespace''
            \<and> migrateNamespace k fl mg (namespace fl) s1 = (Some e, s2)"
  then show "main k getenv fl args s = (println e s2, 1)"
    by (simp add: main_def exit_on_error_def)
next
  fix mg s1 e s2
  assume "NewMigrator k getenv (kubeconfig fl) (namespace fl) s = (Inr mg, s1)
            \<and> flag_Arg args 0 = ''all''
            \<and> migrateAll k fl mg s1 = (Some e, s2)"
  then show "main k getenv fl args s = (println e s2, 1)"
    by (simp add: main_def exit_on_error_def)
qed

theorem top_level_error_prints_and_exits_1_witness:
  "main mem_sdk getenv0 flags0 [] state0 = (println ''subprogram is required'' state0, 1)
   \<and> main mem_sdk getenv0 (flags0\<lparr>kubeconfig := []\<rparr>) [''all''] state0
       = (println ''invalid configuration'' state0, 1)
   \<and> main mem_sdk getenv0 flags0 [''frobnicate''] state0
       = (println ''unknown subprogram frobnicate'' state0, 1)
   \<and> main mem_sdk getenv0 flags0 [''release''] state0
       = (println ''release name is required'' state0, 1)
   \<and> main mem_sdk getenv0 flags0 [''release'', ''web''] state0
       = (println ''failed to migrate release web'' (snd web_run), 1)
   \<and> main mem_sdk getenv0 flags_null [''namespace''] state0
       = (println ''Kubernetes cluster unreachable''
            (debug_log [] (record_call (ListRun (actionCfg migrator_null) False) state0)), 1)
   \<and> main mem_sdk getenv0 flags_null [''all''] state0
       = (println ''Kubernetes cluster unreachable''
            (debug_log [] (record_call (ListRun (actionCfg migrator_null) True) state0)), 1)"
proof -
  have web: "migrateRelease mem_sdk flags0 (migrator0 ''default'') (flag_Arg [''release'', ''web''] 1)
               (namespace flags0) state0
             = (Some ''failed to migrate release web'', snd web_run)"
    using web_run_result by (simp add: web_run_def flag_Arg_def flags0_def prod_eq_iff)
  have "main mem_sdk getenv0 flags0 [] state0 = (println ''subprogram is required'' state0, 1)"
    using top_level_error_prints_and_exits_1 [of "[]" mem_sdk getenv0 flags0 state0]
    by (simp add: flag_Arg_def)
  moreover have "main mem_sdk getenv0 (flags0\<lparr>kubeconfig := []\<rparr>) [''all''] state0
       = (println ''invalid configuration'' state0, 1)"
    using top_level_error_prints_and_exits_1
            [of "[''all'']" mem_sdk getenv0 "flags0\<lparr>kubeconfig := []\<rparr>" state0]
          new_migrator_failed
    by (simp add: flag_Arg_def)
  moreover have "main mem_sdk getenv0 flags0 [''frobnicate''] state0
       = (println ''unknown subprogram frobnicate'' state0, 1)"
    using top_level_error_prints_and_exits_1 [of "[''frobnicate'']" mem_sdk getenv0 flags0 state0]
          new_migrator0
    by (simp add: flag_Arg_def)
  moreover have "main mem_sdk getenv0 flags0 [''release''] state0
       = (println ''release name is required'' state0, 1)"
    using top_level_error_prints_and_exits_1 [of "[''release'']" mem_sdk getenv0 flags0 state0]
          new_migrator0
    by (simp add: flag_Arg_def)
  moreover have "main mem_sdk getenv0 flags0 [''release'', ''web''] state0
       = (println ''failed to migrate release web'' (snd web_run), 1)"
    using top_level_error_prints_and_exits_1
            [of "[''release'', ''web'']" mem_sdk getenv0 flags0 state0]
          new_migrator0 web
    by (simp add: flag_Arg_def)
  moreover have "main mem_sdk getenv0 flags_null [''namespace''] state0
       = (println ''Kubernetes cluster unreachable''
            (debug_log [] (record_call (ListRun (actionCfg migrator_null) False) state0)), 1)"
    using top_level_error_prints_and_exits_1
            [of "[''namespace'']" mem_sdk getenv0 flags_null state0]
          new_migrator_null list_null(1)
    by (simp add: flag_Arg_def)
  moreover have "main mem_sdk getenv0 flags_null [''all''] state0
       = (println ''Kubernetes cluster unreachable''
            (debug_log [] (record_call (ListRun (actionCfg migrator_null) True) state0)), 1)"
    using top_level_error_prints_and_exits_1
            [of "[''all'']" mem_sdk getenv0 flags_null state0]
          new_migrator_null list_null(2)
    by (simp add: flag_Arg_def)
  ultimately show ?thesis by (intro conjI)
qed

section \<open>The cluster after a migration\<close>

lemma world_println [simp]: "world (println l s) = world s"
  by (simp add: println_def)

lemma world_debug_log [simp]: "world (debug_log msgs s) = world s"
  by (simp add: debug_log_def)

lemma world_record_call [simp]: "world (record_call c s) = world s"
  by (simp add: record_call_def)

lemma migrate_revisions_failed_stays:
  "fst (migrate_revisions k m st name hist True s)"
  using migrate_revisions_calls [of k m st name hist True s] by auto

lemma migrate_revisions_world:
  "\<not> fst (migrate_revisions k m st name hist f s)
     \<Longrightarrow> apply_migration k (clientset m) st (actionCfg m) name hist (world s)
           = Some (world (snd (migrate_revisions k m st name hist f s)))"
proof (induction hist arbitrary: f s)
  case Nil
  show ?case by simp
next
  case (Cons r hist)
  obtain cres w1 where cr: "storage_Create k (clientset m) st r (world s) = (cres, w1)"
    by (cases "storage_Create k (clientset m) st r (world s)")
  show ?case
  proof (cases cres)
    case (Some e)
    with cr Cons.prems show ?thesis
      by (simp add: migrate_revisions_failed_stays)
  next
    case None
    obtain msgs dres w2 where
      dl: "releases_Delete k (actionCfg m) name (Version r) w1 = (msgs, dres, w2)"
      by (cases "releases_Delete k (actionCfg m) name (Version r) w1")
    show ?thesis
    proof (cases dres)
      case (Some e)
      with cr None dl Cons.prems show ?thesis
        by (simp add: migrate_revisions_failed_stays)
    next
      case dn: None
      define s2 where "s2 = println (''migrated release '' @ name @ '' version ''
                             @ show_int (Version r))
                    (debug_log msgs
                       (record_call (ReleasesDelete (actionCfg m) name (Version r) None)
                          (record_call (StorageCreate st r None) (s\<lparr>world := w2\<rparr>))))"
      have step: "migrate_revisions k m st name (r # hist) f s
                    = migrate_revisions k m st name hist f s2"
        using cr None dl dn by (simp add: s2_def)
      have w: "world s2 = w2" by (simp add: s2_def)
      from Cons.prems step have "\<not> fst (migrate_revisions k m st name hist f s2)" by simp
      from Cons.IH [OF this] w step cr None dl dn show ?thesis by simp
    qed
  qed
qed

lemma migrateRelease_world:
  assumes "select_storage (to fl) ns = Some st"
    and "history_Run k (actionCfg m) (maxHist fl) name (world s) = (msgs, Inr hist)"
    and "fst (migrateRelease k fl m name ns s) = None"
  shows "apply_migration k (clientset m) st (actionCfg m) name hist (world s)
           = Some (world (snd (migrateRelease k fl m name ns s)))"
proof -
  define s1 where "s1 = debug_log msgs (record_call (HistoryRun (actionCfg m) (maxHist fl) name) s)"
  have mr: "migrateRelease k fl m name ns s =
          (if fst (migrate_revisions k m st name hist False s1)
           then Some (''failed to migrate release '' @ name) else None,
           snd (migrate_revisions k m st name hist False s1))"
    using assms(1,2) by (simp add: migrateRelease_def s1_def split: prod.split)
  from assms(3) mr have nf: "\<not> fst (migrate_revisions k m st name hist False s1)"
    by (simp split: if_splits)
  have "world s1 = world s" by (simp add: s1_def)
  with migrate_revisions_world [OF nf] mr show ?thesis by simp
qed

text \<open>
  Claim C2.  When the history fetch returns \<open>N\<close> revisions and every create and every
  delete of the run succeeds, \<^verbatim>\<open>migrateRelease\<close> makes exactly \<open>N\<close> creates on the
  target driver and \<open>N\<close> deletes on the source driver, one pair per revision in the
  order of the history, and returns no error.  The cluster it leaves is the one the SDK
  produces from these creates and deletes, applied in that order to the cluster it
  started from.
\<close>

theorem successful_migration_counts:
  assumes "select_storage (to fl) ns = Some st"
    and "history_Run k (actionCfg m) (maxHist fl) releaseName (world s) = (msgs, Inr hist)"
    and "migrateRelease k fl m releaseName ns s = (res, s')"
    and "\<forall>c\<in>set (new_calls s s'). \<not> call_failed c"
  shows "res = None
     \<and> new_calls s s'
         = HistoryRun (actionCfg m) (maxHist fl) releaseName
           # concat (map (\<lambda>r. [StorageCreate st r None,
                                 ReleasesDelete (actionCfg m) releaseName (Version r) None]) hist)
     \<and> length (filter is_create (new_calls s s')) = length hist
     \<and> length (filter is_delete (new_calls s s')) = length hist
     \<and> apply_migration k (clientset m) st (actionCfg m) releaseName hist (world s)
         = Some (world s')"
proof -
  from migrateRelease_history_ok [OF assms(1,2)] assms(3) obtain t where
    t: "calls s' = calls s @ HistoryRun (actionCfg m) (maxHist fl) releaseName # t"
       "revision_calls (actionCfg m) st releaseName hist t"
       "res = (if \<exists>c\<in>set t. call_failed c then Some (''failed to migrate release '' @ releaseName)
               else None)"
    by auto
  have nc: "new_calls s s' = HistoryRun (actionCfg m) (maxHist fl) releaseName # t"
    using t(1) by simp
  have ok: "\<forall>c\<in>set t. \<not> call_failed c"
    using assms(4) nc by simp
  have shape: "t = concat (map (\<lambda>r. [StorageCreate st r None,
                                 ReleasesDelete (actionCfg m) releaseName (Version r) None]) hist)"
    by (rule revision_calls_all_ok [OF t(2) ok])
  have rn: "res = None" using t(3) ok by simp
  have cl: "apply_migration k (clientset m) st (actionCfg m) releaseName hist (world s)
         = Some (world s')"
    using migrateRelease_world [OF assms(1,2)] assms(3) rn by simp
  have "length (filter is_create (new_calls s s')) = length hist"
    unfolding nc by (subst shape) (simp add: count_creates_all_ok)
  moreover have "length (filter is_delete (new_calls s s')) = length hist"
    unfolding nc by (subst shape) (simp add: count_deletes_all_ok)
  ultimately show ?thesis using nc shape rn cl by simp
qed

lemma db_run_world: "world (snd db_run) = cluster_db_migrated"
  by (simp add: db_run_def fixture_defs run_defs cluster_db_migrated_def)

theorem successful_migration_counts_witness:
  "fst db_run = None
   \<and> new_calls state0 (snd db_run)
       = [HistoryRun (cfg0 ''prod'') 3 ''db'',
          StorageCreate (secrets_in ''prod'') (rel ''db'' ''prod'' 1) None,
          ReleasesDelete (cfg0 ''prod'') ''db'' 1 None,
          StorageCreate (secrets_in ''prod'') (rel ''db'' ''prod'' 2) None,
          ReleasesDelete (cfg0 ''prod'') ''db'' 2 None]
   \<and> length (filter is_create (new_calls state0 (snd db_run))) = 2
   \<and> length (filter is_delete (new_calls state0 (snd db_run))) = 2
   \<and> apply_migration mem_sdk ''config'' (secrets_in ''prod'') (cfg0 ''prod'') ''db''
        [rel ''db'' ''prod'' 1, rel ''db'' ''prod'' 2] cluster0
       = Some cluster_db_migrated
   \<and> world (snd db_run) = cluster_db_migrated"
proof -
  have run: "migrateRelease mem_sdk flags0 (migrator0 ''prod'') ''db'' ''prod'' state0
               = (fst db_run, snd db_run)"
    by (simp add: db_run_def)
  have ok: "\<forall>c\<in>set (new_calls state0 (snd db_run)). \<not> call_failed c"
    by (simp add: db_run_calls)
  from successful_migration_counts [OF select_secret db_history run ok] show ?thesis
    by (simp add: migrator0_def flags0_def rel_def db_run_world state0_def)
qed

section \<open>What the loops over the releases print\<close>

lemma stdout_println [simp]: "stdout (println l s) = stdout s @ [l]"
  by (simp add: println_def)

lemma stdout_debug_log [simp]: "stdout (debug_log msgs s) = stdout s @ msgs"
  by (simp add: debug_log_def)

lemma stdout_record_call [simp]: "stdout (record_call c s) = stdout s"
  by (simp add: record_call_def)

lemma migrate_revisions_stdout:
  "\<exists>out. stdout (snd (migrate_revisions k m st name hist f s)) = stdout s @ out"
proof (induction hist arbitrary: f s)
  case Nil
  show ?case by simp
next
  case (Cons r hist)
  have grow: "\<exists>out. stdout (snd (migrate_revisions k m st name hist f' s2)) = stdout s @ out"
    if "stdout s2 = stdout s @ out2" for f' s2 out2
  proof -
    from Cons.IH [of f' s2] obtain out' where
      "stdout (snd (migrate_revisions k m st name hist f' s2)) = stdout s2 @ out'"
      by blast
    with that show ?thesis by simp
  qed
  obtain cres w1 where cr: "storage_Create k (clientset m) st r (world s) = (cres, w1)"
    by (cases "storage_Create k (clientset m) st r (world s)")
  show ?case
  proof (cases cres)
    case (Some e)
    with cr show ?thesis by (simp add: grow)
  next
    case None
    obtain msgs dres w2 where
      dl: "releases_Delete k (actionCfg m) name (Version r) w1 = (msgs, dres, w2)"
      by (cases "releases_Delete k (actionCfg m) name (Version r) w1")
    with cr None show ?thesis by (cases dres) (simp_all add: grow)
  qed
qed

lemma migrateRelease_stdout:
  "\<exists>out. stdout (snd (migrateRelease k fl m name ns s)) = stdout s @ out"
proof (cases "select_storage (to fl) ns")
  case None
  then show ?thesis by (simp add: migrateRelease_unknown)
next
  case (Some st)
  obtain msgs hres where h: "history_Run k (actionCfg m) (maxHist fl) name (world s) = (msgs, hres)"
    by (cases "history_Run k (actionCfg m) (maxHist fl) name (world s)")
  show ?thesis
  proof (cases hres)
    case (Inl e)
    with h Some show ?thesis by (simp add: migrateRelease_history_failed)
  next
    case (Inr hist)
    define s1 where "s1 = debug_log msgs (record_call (HistoryRun (actionCfg m) (maxHist fl) name) s)"
    have mr: "snd (migrateRelease k fl m name ns s) = snd (migrate_revisions k m st name hist False s1)"
      using Some h Inr by (simp add: migrateRelease_def s1_def split: prod.split)
    from migrate_revisions_stdout [of k m st name hist False s1] obtain out where
      "stdout (snd (migrate_revisions k m st name hist False s1)) = stdout s1 @ out"
      by blast
    with mr show ?thesis by (simp add: s1_def)
  qed
qed

lemma migrateAll_loop_stdout:
  "\<exists>out. stdout (migrateAll_loop k fl m releases s) = stdout s @ out"
proof (induction releases arbitrary: s)
  case Nil
  show ?case by simp
next
  case (Cons r releases)
  obtain res s1 where mr: "migrateRelease k fl m (Name r) (Namespace r) s = (res, s1)"
    by (cases "migrateRelease k fl m (Name r) (Namespace r) s")
  from migrateRelease_stdout [of k fl m "Name r" "Namespace r" s] mr obtain out where
    o: "stdout s1 = stdout s @ out"
    by auto
  define s2 where "s2 = (case res of Some e \<Rightarrow> println e s1 | None \<Rightarrow> s1)"
  have step: "migrateAll_loop k fl m (r # releases) s = migrateAll_loop k fl m releases s2"
    using mr by (cases res) (simp_all add: s2_def)
  have "\<exists>out2. stdout s2 = stdout s @ out2"
    using o by (cases res) (simp_all add: s2_def)
  then obtain out2 where o2: "stdout s2 = stdout s @ out2" by blast
  from Cons.IH [of s2] obtain out' where
    "stdout (migrateAll_loop k fl m releases s2) = stdout s2 @ out'"
    by blast
  with step o2 show ?case by simp
qed

lemma migrateAll_loop_append:
  "migrateAll_loop k fl m (xs @ ys) s = migrateAll_loop k fl m ys (migrateAll_loop k fl m xs s)"
  by (induction xs arbitrary: s) (simp_all split: prod.split option.split)

lemma migrateNamespace_loop_append:
  "migrateNamespace_loop k fl m ns (xs @ ys) s
     = migrateNamespace_loop k fl m ns ys (migrateNamespace_loop k fl m ns xs s)"
  by (induction xs arbitrary: s) (simp_all split: prod.split option.split)

lemma migrateNamespace_loop_as_all:
  "\<forall>r\<in>set releases. Namespace r = ns
     \<Longrightarrow> migrateNamespace_loop k fl m ns releases s = migrateAll_loop k fl m releases s"
  by (induction releases arbitrary: s) (simp_all split: prod.split option.split)

lemma migrateNamespace_loop_stdout:
  "\<exists>out. stdout (migrateNamespace_loop k fl m ns releases s) = stdout s @ out"
proof -
  have "migrateNamespace_loop k fl m ns releases s
          = migrateAll_loop k fl m (filter (\<lambda>r. Namespace r = ns) releases) s"
    using migrateNamespace_loop_filter [of k fl m ns releases s]
          migrateNamespace_loop_as_all [of "filter (\<lambda>r. Namespace r = ns) releases" ns k fl m s]
    by simp
  with migrateAll_loop_stdout [of k fl m "filter (\<lambda>r. Namespace r = ns) releases" s]
  show ?thesis by simp
qed

lemma migrateAll_loop_prints:
  assumes "migrateRelease k fl m (Name r) (Namespace r) (migrateAll_loop k fl m pre s1) = (Some e, t)"
  shows "migrateAll_loop k fl m (pre @ [r]) s1 = println e t
       \<and> (\<exists>rest. stdout (migrateAll_loop k fl m (pre @ r # post) s1) = stdout t @ e # rest)"
proof -
  have a: "migrateAll_loop k fl m (pre @ [r]) s1 = println e t"
    using assms by (simp add: migrateAll_loop_append)
  have "migrateAll_loop k fl m (pre @ r # post) s1 = migrateAll_loop k fl m post (println e t)"
    using a migrateAll_loop_append [of k fl m "pre @ [r]" post s1] by simp
  moreover from migrateAll_loop_stdout [of k fl m post "println e t"] obtain out where
    "stdout (migrateAll_loop k fl m post (println e t)) = stdout (println e t) @ out"
    by blast
  ultimately have "stdout (migrateAll_loop k fl m (pre @ r # post) s1) = stdout t @ e # out"
    by simp
  with a show ?thesis by blast
qed

lemma migrateNamespace_loop_prints:
  assumes "Namespace r = ns"
    and "migrateRelease k fl m (Name r) ns (migrateNamespace_loop k fl m ns pre s1) = (Some e, t)"
  shows "migrateNamespace_loop k fl m ns (pre @ [r]) s1 = println e t
       \<and> (\<exists>rest. stdout (migrateNamespace_loop k fl m ns (pre @ r # post) s1) = stdout t @ e # rest)"
proof -
  have a: "migrateNamespace_loop k fl m ns (pre @ [r]) s1 = println e t"
    using assms by (simp add: migrateNamespace_loop_append)
  have "migrateNamespace_loop k fl m ns (pre @ r # post) s1
          = migrateNamespace_loop k fl m ns post (println e t)"
    using a migrateNamespace_loop_append [of k fl m ns "pre @ [r]" post s1] by simp
  moreover from migrateNamespace_loop_stdout [of k fl m ns post "println e t"] obtain out where
    "stdout (migrateNamespace_loop k fl m ns post (println e t)) = stdout (println e t) @ out"
    by blast
  ultimately have "stdout (migrateNamespace_loop k fl m ns (pre @ r # post) s1) = stdout t @ e # out"
    by simp
  with a show ?thesis by blast
qed

text \<open>
  Claim C7.  \<^verbatim>\<open>migrateNamespace\<close> and \<^verbatim>\<open>migrateAll\<close> return an error exactly when
  the listing of the releases fails, and then the listing's error; when the listing
  succeeds they return \<^verbatim>\<open>nil\<close>, whatever the migrations of the releases returned.
  An error of a release's migration is only printed: for a listed release \<open>r\<close> (one
  of namespace \<open>ns\<close> for \<^verbatim>\<open>migrateNamespace\<close>) whose \<^verbatim>\<open>migrateRelease\<close>, called in the
  state the loop has reached after the releases before it, returns the error \<open>e\<close>,
  the loop goes on from that state with \<open>e\<close> printed, and the final standard output is
  the output up to there, then \<open>e\<close>, then what the rest of the run prints.
\<close>

theorem only_listing_errors_are_returned:
  "fst (migrateNamespace k fl m ns s)
     = (case snd (list_Run k (actionCfg m) False (world s)) of
          Inl e \<Rightarrow> Some e | Inr releases \<Rightarrow> None)
   \<and> fst (migrateAll k fl m s)
     = (case snd (list_Run k (actionCfg m) True (world s)) of
          Inl e \<Rightarrow> Some e | Inr releases \<Rightarrow> None)
   \<and> (\<forall>msgs pre r post e t.
         list_Run k (actionCfg m) False (world s) = (msgs, Inr (pre @ r # post))
         \<and> Namespace r = ns
         \<and> migrateRelease k fl m (Name r) ns
             (migrateNamespace_loop k fl m ns pre
                (debug_log msgs (record_call (ListRun (actionCfg m) False) s)))
           = (Some e, t) \<longrightarrow>
           migrateNamespace_loop k fl m ns (pre @ [r])
               (debug_log msgs (record_call (ListRun (actionCfg m) False) s))
             = println e t
           \<and> (\<exists>rest. stdout (snd (migrateNamespace k fl m ns s)) = stdout t @ e # rest))
   \<and> (\<forall>msgs pre r post e t.
         list_Run k (actionCfg m) True (world s) = (msgs, Inr (pre @ r # post))
         \<and> migrateRelease k fl m (Name r) (Namespace r)
             (migrateAll_loop k fl m pre
                (debug_log msgs (record_call (ListRun (actionCfg m) True) s)))
           = (Some e, t) \<longrightarrow>
           migrateAll_loop k fl m (pre @ [r])
               (debug_log msgs (record_call (ListRun (actionCfg m) True) s))
             = println e t
           \<and> (\<exists>rest. stdout (snd (migrateAll k fl m s)) = stdout t @ e # rest))"
proof (intro conjI allI impI)
  show "fst (migrateNamespace k fl m ns s)
     = (case snd (list_Run k (actionCfg m) False (world s)) of
          Inl e \<Rightarrow> Some e | Inr releases \<Rightarrow> None)"
    by (simp add: migrateNamespace_def split: prod.split sum.split)
next
  show "fst (migrateAll k fl m s)
     = (case snd (list_Run k (actionCfg m) True (world s)) of
          Inl e \<Rightarrow> Some e | Inr releases \<Rightarrow> None)"
    by (simp add: migrateAll_def split: prod.split sum.split)
next
  fix msgs pre r post e t
  assume h: "list_Run k (actionCfg m) False (world s) = (msgs, Inr (pre @ r # post))
         \<and> Namespace r = ns
         \<and> migrateRelease k fl m (Name r) ns
             (migrateNamespace_loop k fl m ns pre
                (debug_log msgs (record_call (ListRun (actionCfg m) False) s)))
           = (Some e, t)"
  then have run: "snd (migrateNamespace k fl m ns s)
      = migrateNamespace_loop k fl m ns (pre @ r # post)
          (debug_log msgs (record_call (ListRun (actionCfg m) False) s))"
    by (simp add: migrateNamespace_def)
  from h migrateNamespace_loop_prints [of r ns k fl m pre _ e t post]
  show "migrateNamespace_loop k fl m ns (pre @ [r])
               (debug_log msgs (record_call (ListRun (actionCfg m) False) s))
             = println e t"
    and "\<exists>rest. stdout (snd (migrateNamespace k fl m ns s)) = stdout t @ e # rest"
    unfolding run by blast+
next
  fix msgs pre r post e t
  assume h: "list_Run k (actionCfg m) True (world s) = (msgs, Inr (pre @ r # post))
         \<and> migrateRelease k fl m (Name r) (Namespace r)
             (migrateAll_loop k fl m pre
                (debug_log msgs (record_call (ListRun (actionCfg m) True) s)))
           = (Some e, t)"
  then have run: "snd (migrateAll k fl m s)
      = migrateAll_loop k fl m (pre @ r # post)
          (debug_log msgs (record_call (ListRun (actionCfg m) True) s))"
    by (simp add: migrateAll_def)
  from h migrateAll_loop_prints [of k fl m r pre _ e t post]
  show "migrateAll_loop k fl m (pre @ [r])
               (debug_log msgs (record_call (ListRun (actionCfg m) True) s))
             = println e t"
    and "\<exists>rest. stdout (snd (migrateAll k fl m s)) = stdout t @ e # rest"
    unfolding run by blast+
qed

lemma failing_namespace_run:
  "stdout (snd (migrateNamespace mem_sdk flags0 (migrator0 ''default'') ''default'' state0))
     = [''getting history for release web'',
        ''migrated release web version 1'',
        ''failed to migrate release web version 2,: release: already exists'',
        ''failed to delete release web version 3: forbidden'',
        ''failed to migrate release web'',
        ''getting history for release web'',
        ''failed to migrate release web version 2,: release: already exists'',
        ''failed to migrate release web version 3,: release: already exists'',
        ''failed to migrate release web'',
        ''getting history for release web'',
        ''failed to migrate release web version 2,: release: already exists'',
        ''failed to migrate release web version 3,: release: already exists'',
        ''failed to migrate release web'']"
  by (simp add: fixture_defs run_defs loop_defs)

lemma list_state0:
  "list_Run mem_sdk (actionCfg (migrator0 ''default'')) False (world state0)
     = ([], Inr ([] @ rel ''web'' ''default'' 1
                  # [rel ''web'' ''default'' 2, rel ''web'' ''default'' 3]))"
  "list_Run mem_sdk (actionCfg (migrator0 ''default'')) True (world state0)
     = ([], Inr ([] @ rel ''web'' ''default'' 1
                  # [rel ''web'' ''default'' 2, rel ''web'' ''default'' 3,
                     rel ''db'' ''prod'' 1, rel ''db'' ''prod'' 2]))"
  by (simp_all add: fixture_defs)

lemma first_listed_fails:
  "fst (migrateRelease mem_sdk flags0 (migrator0 ''default'') ''web'' ''default'' listed_ns)
     = Some ''failed to migrate release web''"
  "stdout (snd (migrateRelease mem_sdk flags0 (migrator0 ''default'') ''web'' ''default'' listed_ns))
     = [''getting history for release web'',
        ''migrated release web version 1'',
        ''failed to migrate release web version 2,: release: already exists'',
        ''failed to delete release web version 3: forbidden'']"
  "fst (migrateRelease mem_sdk flags0 (migrator0 ''default'') ''web'' ''default'' listed_all)
     = Some ''failed to migrate release web''"
  "stdout (snd (migrateRelease mem_sdk flags0 (migrator0 ''default'') ''web'' ''default'' listed_all))
     = [''getting history for release web'',
        ''migrated release web version 1'',
        ''failed to migrate release web version 2,: release: already exists'',
        ''failed to delete release web version 3: forbidden'']"
  by (simp_all add: listed_ns_def listed_all_def fixture_defs run_defs)

theorem only_listing_errors_are_returned_witness:
  "fst (migrateNamespace mem_sdk flags0 (migrator0 ''default'') ''default'' state0) = None
   \<and> ''failed to migrate release web''
       \<in> set (stdout (snd (migrateNamespace mem_sdk flags0 (migrator0 ''default'') ''default'' state0)))
   \<and> fst (migrateAll mem_sdk flags0 (migrator0 ''default'') state0) = None
   \<and> fst (migrateAll mem_sdk flags0
             (migrator0 ''default''\<lparr>actionCfg := (cfg0 ''default'')\<lparr>cfg_kubeconfig := ''/dev/null''\<rparr>\<rparr>)
             state0)
       = Some ''Kubernetes cluster unreachable''
   \<and> (\<exists>rest. stdout (snd (migrateNamespace mem_sdk flags0 (migrator0 ''default'') ''default'' state0))
         = [''getting history for release web'',
            ''migrated release web version 1'',
            ''failed to migrate release web version 2,: release: already exists'',
            ''failed to delete release web version 3: forbidden'']
           @ ''failed to migrate release web'' # rest)
   \<and> (\<exists>rest. stdout (snd (migrateAll mem_sdk flags0 (migrator0 ''default'') state0))
         = [''getting history for release web'',
            ''migrated release web version 1'',
            ''failed to migrate release web version 2,: release: already exists'',
            ''failed to delete release web version 3: forbidden'']
           @ ''failed to migrate release web'' # rest)"
proof -
  have l: "snd (list_Run mem_sdk (actionCfg (migrator0 ''default'')) b (world state0))
             = Inr (if b then [rel ''web'' ''default'' 1, rel ''web'' ''default'' 2,
                               rel ''web'' ''default'' 3, rel ''db'' ''prod'' 1, rel ''db'' ''prod'' 2]
                    else [rel ''web'' ''default'' 1, rel ''web'' ''default'' 2,
                          rel ''web'' ''default'' 3])" for b
    by (simp add: fixture_defs)
  have l': "snd (list_Run mem_sdk
                  (actionCfg (migrator0 ''default''\<lparr>actionCfg := (cfg0 ''default'')\<lparr>cfg_kubeconfig := ''/dev/null''\<rparr>\<rparr>))
                  True (world state0))
             = Inl ''Kubernetes cluster unreachable''"
    by (simp add: fixture_defs)
  note inst = only_listing_errors_are_returned
         [of mem_sdk flags0 "migrator0 ''default''" "''default''" state0]
  from inst l
  have a: "fst (migrateNamespace mem_sdk flags0 (migrator0 ''default'') ''default'' state0) = None"
    and b: "fst (migrateAll mem_sdk flags0 (migrator0 ''default'') state0) = None"
    by simp_all
  from only_listing_errors_are_returned
         [of mem_sdk flags0 "migrator0 ''default''\<lparr>actionCfg := (cfg0 ''default'')\<lparr>cfg_kubeconfig := ''/dev/null''\<rparr>\<rparr>"
             "''default''" state0] l'
  have c: "fst (migrateAll mem_sdk flags0
             (migrator0 ''default''\<lparr>actionCfg := (cfg0 ''default'')\<lparr>cfg_kubeconfig := ''/dev/null''\<rparr>\<rparr>)
             state0)
       = Some ''Kubernetes cluster unreachable''"
    by simp
  have rn: "migrateRelease mem_sdk flags0 (migrator0 ''default'') (Name (rel ''web'' ''default'' 1))
              ''default''
              (migrateNamespace_loop mem_sdk flags0 (migrator0 ''default'') ''default'' []
                 (debug_log [] (record_call (ListRun (actionCfg (migrator0 ''default'')) False) state0)))
            = (Some ''failed to migrate release web'',
               snd (migrateRelease mem_sdk flags0 (migrator0 ''default'') ''web'' ''default'' listed_ns))"
    using first_listed_fails(1) by (simp add: listed_ns_def rel_def prod_eq_iff)
  have ra: "migrateRelease mem_sdk flags0 (migrator0 ''default'') (Name (rel ''web'' ''default'' 1))
              (Namespace (rel ''web'' ''default'' 1))
              (migrateAll_loop mem_sdk flags0 (migrator0 ''default'') []
                 (debug_log [] (record_call (ListRun (actionCfg (migrator0 ''default'')) True) state0)))
            = (Some ''failed to migrate release web'',
               snd (migrateRelease mem_sdk flags0 (migrator0 ''default'') ''web'' ''default'' listed_all))"
    using first_listed_fails(3) by (simp add: listed_all_def rel_def prod_eq_iff)
  have nsd: "Namespace (rel ''web'' ''default'' 1) = ''default''"
    by (simp add: rel_def)
  from inst list_state0(1) nsd rn
  have d: "\<exists>rest. stdout (snd (migrateNamespace mem_sdk flags0 (migrator0 ''default'') ''default'' state0))
         = stdout (snd (migrateRelease mem_sdk flags0 (migrator0 ''default'') ''web'' ''default'' listed_ns))
           @ ''failed to migrate release web'' # rest"
    by blast
  from inst list_state0(2) ra
  have e: "\<exists>rest. stdout (snd (migrateAll mem_sdk flags0 (migrator0 ''default'') state0))
         = stdout (snd (migrateRelease mem_sdk flags0 (migrator0 ''default'') ''web'' ''default'' listed_all))
           @ ''failed to migrate release web'' # rest"
    by blast
  from a b c d e show ?thesis
    by (simp add: failing_namespace_run first_listed_fails)
qed

section \<open>The releases a namespace migration touches\<close>

lemma revision_calls_create_member:
  "revision_calls cfg st name hist t \<Longrightarrow> StorageCreate st' r cres \<in> set t \<Longrightarrow> r \<in> set hist"
  by (induction rule: revision_calls.induct) auto

lemma revision_calls_delete_member:
  "revision_calls cfg st name hist t \<Longrightarrow> ReleasesDelete cfg' n v dres \<in> set t
     \<Longrightarrow> n = name \<and> (\<exists>r\<in>set hist. v = Version r \<and> StorageCreate st r None \<in> set t)"
  by (induction rule: revision_calls.induct) auto

lemma migrateRelease_scoped:
  assumes scoped: "\<forall>w msgs hist. history_Run k (actionCfg m) (maxHist fl) name w = (msgs, Inr hist)
                     \<longrightarrow> (\<forall>r\<in>set hist. Name r = name \<and> Namespace r = ns)"
  shows "\<exists>t. calls (snd (migrateRelease k fl m name ns' s)) = calls s @ t
           \<and> (\<forall>st r cres. StorageCreate st r cres \<in> set t \<longrightarrow> Name r = name \<and> Namespace r = ns)
           \<and> (\<forall>cfg n v dres. ReleasesDelete cfg n v dres \<in> set t \<longrightarrow>
                 (\<exists>st r. StorageCreate st r None \<in> set t \<and> Name r = n \<and> Version r = v
                     \<and> Namespace r = ns))"
proof (cases "select_storage (to fl) ns'")
  case None
  then show ?thesis by (simp add: migrateRelease_unknown)
next
  case (Some st)
  obtain msgs hres where h: "history_Run k (actionCfg m) (maxHist fl) name (world s) = (msgs, hres)"
    by (cases "history_Run k (actionCfg m) (maxHist fl) name (world s)")
  show ?thesis
  proof (cases hres)
    case (Inl e)
    with h Some show ?thesis by (simp add: migrateRelease_history_failed)
  next
    case (Inr hist)
    with h have h': "history_Run k (actionCfg m) (maxHist fl) name (world s) = (msgs, Inr hist)"
      by simp
    from scoped h' have sc: "\<forall>r\<in>set hist. Name r = name \<and> Namespace r = ns" by blast
    from migrateRelease_history_ok [OF Some h'] obtain t where
      t: "calls (snd (migrateRelease k fl m name ns' s))
            = calls s @ HistoryRun (actionCfg m) (maxHist fl) name # t"
         "revision_calls (actionCfg m) st name hist t"
      by blast
    have cr: "Name r = name \<and> Namespace r = ns"
      if "StorageCreate st' r cres \<in> set (HistoryRun (actionCfg m) (maxHist fl) name # t)"
      for st' r cres
      using that revision_calls_create_member [OF t(2)] sc by auto
    have dl: "\<exists>st' r. StorageCreate st' r None \<in> set (HistoryRun (actionCfg m) (maxHist fl) name # t)
                \<and> Name r = n \<and> Version r = v \<and> Namespace r = ns"
      if "ReleasesDelete cfg n v dres \<in> set (HistoryRun (actionCfg m) (maxHist fl) name # t)"
      for cfg n v dres
    proof -
      from that have "ReleasesDelete cfg n v dres \<in> set t" by simp
      from revision_calls_delete_member [OF t(2) this] obtain r where
        "n = name" "r \<in> set hist" "v = Version r" "StorageCreate st r None \<in> set t"
        by blast
      with sc show ?thesis by auto
    qed
    from t(1) cr dl show ?thesis by blast
  qed
qed

lemma migrateNamespace_loop_scoped:
  assumes scoped: "\<forall>n w msgs hist. history_Run k (actionCfg m) (maxHist fl) n w = (msgs, Inr hist)
                     \<longrightarrow> (\<forall>r\<in>set hist. Name r = n \<and> Namespace r = ns)"
  shows "\<exists>t. calls (migrateNamespace_loop k fl m ns releases s) = calls s @ t
           \<and> (\<forall>st r cres. StorageCreate st r cres \<in> set t \<longrightarrow>
                 Namespace r = ns \<and> (\<exists>r'\<in>set releases. Namespace r' = ns \<and> Name r' = Name r))
           \<and> (\<forall>cfg n v dres. ReleasesDelete cfg n v dres \<in> set t \<longrightarrow>
                 (\<exists>st r. StorageCreate st r None \<in> set t \<and> Name r = n \<and> Version r = v
                     \<and> Namespace r = ns))"
proof (induction releases arbitrary: s)
  case Nil
  show ?case by simp
next
  case (Cons r0 releases)
  show ?case
  proof (cases "Namespace r0 = ns")
    case False
    from Cons.IH [of s] obtain t where
      "calls (migrateNamespace_loop k fl m ns releases s) = calls s @ t"
      "\<forall>st r cres. StorageCreate st r cres \<in> set t \<longrightarrow>
                 Namespace r = ns \<and> (\<exists>r'\<in>set releases. Namespace r' = ns \<and> Name r' = Name r)"
      "\<forall>cfg n v dres. ReleasesDelete cfg n v dres \<in> set t \<longrightarrow>
                 (\<exists>st r. StorageCreate st r None \<in> set t \<and> Name r = n \<and> Version r = v
                     \<and> Namespace r = ns)"
      by blast
    with False show ?thesis
      by (intro exI [of _ t]) auto
  next
    case True
    obtain res s1 where mr: "migrateRelease k fl m (Name r0) ns s = (res, s1)"
      by (cases "migrateRelease k fl m (Name r0) ns s")
    from scoped have sc0: "\<forall>w msgs hist. history_Run k (actionCfg m) (maxHist fl) (Name r0) w = (msgs, Inr hist)
                     \<longrightarrow> (\<forall>r\<in>set hist. Name r = Name r0 \<and> Namespace r = ns)"
      by blast
    from migrateRelease_scoped [OF sc0, of ns s] mr obtain t1 where
      t1: "calls s1 = calls s @ t1"
          "\<forall>st r cres. StorageCreate st r cres \<in> set t1 \<longrightarrow> Name r = Name r0 \<and> Namespace r = ns"
          "\<forall>cfg n v dres. ReleasesDelete cfg n v dres \<in> set t1 \<longrightarrow>
                 (\<exists>st r. StorageCreate st r None \<in> set t1 \<and> Name r = n \<and> Version r = v
                     \<and> Namespace r = ns)"
      by auto
    define s2 where "s2 = (case res of Some e \<Rightarrow> println e s1 | None \<Rightarrow> s1)"
    have step: "migrateNamespace_loop k fl m ns (r0 # releases) s
                  = migrateNamespace_loop k fl m ns releases s2"
      using mr True by (cases res) (simp_all add: s2_def)
    have c2: "calls s2 = calls s @ t1"
      using t1(1) by (cases res) (simp_all add: s2_def)
    from Cons.IH [of s2] obtain t2 where
      t2: "calls (migrateNamespace_loop k fl m ns releases s2) = calls s2 @ t2"
      "\<forall>st r cres. StorageCreate st r cres \<in> set t2 \<longrightarrow>
                 Namespace r = ns \<and> (\<exists>r'\<in>set releases. Namespace r' = ns \<and> Name r' = Name r)"
      "\<forall>cfg n v dres. ReleasesDelete cfg n v dres \<in> set t2 \<longrightarrow>
                 (\<exists>st r. StorageCreate st r None \<in> set t2 \<and> Name r = n \<and> Version r = v
                     \<and> Namespace r = ns)"
      by blast
    have a: "calls (migrateNamespace_loop k fl m ns (r0 # releases) s) = calls s @ (t1 @ t2)"
      using step t2(1) c2 by simp
    have b: "Namespace r = ns \<and> (\<exists>r'\<in>set (r0 # releases). Namespace r' = ns \<and> Name r' = Name r)"
      if "StorageCreate st r cres \<in> set (t1 @ t2)" for st r cres
    proof -
      from that consider "StorageCreate st r cres \<in> set t1" | "StorageCreate st r cres \<in> set t2"
        by auto
      then show ?thesis
      proof cases
        case 1
        with t1(2) have "Name r = Name r0 \<and> Namespace r = ns" by blast
        with True show ?thesis by simp
      next
        case 2
        with t2(2) have "Namespace r = ns \<and> (\<exists>r'\<in>set releases. Namespace r' = ns \<and> Name r' = Name r)"
          by blast
        then show ?thesis by auto
      qed
    qed
    have c: "\<exists>st r. StorageCreate st r None \<in> set (t1 @ t2) \<and> Name r = n \<and> Version r = v
                     \<and> Namespace r = ns"
      if "ReleasesDelete cfg n v dres \<in> set (t1 @ t2)" for cfg n v dres
    proof -
      from that consider "ReleasesDelete cfg n v dres \<in> set t1" | "ReleasesDelete cfg n v dres \<in> set t2"
        by auto
      then show ?thesis
      proof cases
        case 1
        with t1(3) show ?thesis by fastforce
      next
        case 2
        with t2(3) show ?thesis by fastforce
      qed
    qed
    from a b c show ?thesis by blast
  qed
qed

lemma mem_history_scoped:
  assumes "history_Run mem_sdk cfg mx n w = (msgs, Inr hist)"
    and "cfg_namespace cfg \<noteq> []"
    and "r \<in> set hist"
  shows "Name r = n \<and> Namespace r = cfg_namespace cfg"
proof -
  obtain src tgt prot where w: "w = (src, tgt, prot)"
    by (cases w)
  define found where
    "found = filter (\<lambda>r. Name r = n \<and> (cfg_namespace cfg = [] \<or> Namespace r = cfg_namespace cfg)) src"
  from assms(1) have "hist = take (nat mx) found"
    by (cases found) (simp_all add: mem_sdk_def w found_def)
  with assms(3) have "r \<in> set found"
    by (auto dest: in_set_takeD)
  with assms(2) show ?thesis
    by (simp add: found_def)
qed

lemma list_state2:
  "list_Run mem_sdk (actionCfg (migrator0 ''prod'')) False (world state2)
     = ([], Inr [rel ''web'' ''prod'' 1])"
  by (simp add: fixture_defs state2_def cluster2_def)

lemma scoped_run_calls:
  "new_calls state2 (snd scoped_run)
     = [ListRun (cfg0 ''prod'') False, HistoryRun (cfg0 ''prod'') 3 ''web'',
        StorageCreate (secrets_in ''prod'') (rel ''web'' ''prod'' 1) None,
        ReleasesDelete (cfg0 ''prod'') ''web'' 1 None]"
  by (simp add: scoped_run_def fixture_defs state2_def cluster2_def run_defs loop_defs)

lemma scoped_run_world:
  "world (snd scoped_run)
     = ([rel ''web'' ''default'' 7], [(secrets_in ''prod'', rel ''web'' ''prod'' 1)], [])"
  by (simp add: scoped_run_def fixture_defs state2_def cluster2_def run_defs loop_defs)

text \<open>
  Claim C5.  \<^verbatim>\<open>migrateNamespace(ns)\<close> calls \<^verbatim>\<open>migrateRelease\<close> only for the listed
  releases whose namespace is \<open>ns\<close>; a release of another namespace is left alone.
  The run is the run over the matching releases alone; its calls are the listing and
  then one segment of \<^verbatim>\<open>migrateRelease\<close> calls per matching release, in order; every
  create goes to a driver on \<open>ns\<close>, and every history fetch and delete goes through the
  Migrator's configuration under the name of a matching release.

  Which revisions a history fetch hands over is the SDK's part.  \<^verbatim>\<open>main\<close> passes the
  value of \<^verbatim>\<open>-namespace\<close> both to \<^verbatim>\<open>NewMigrator\<close> and to \<^verbatim>\<open>migrateNamespace\<close>, and
  a configuration initialised with a namespace fetches the history of a name within
  that namespace.  So when the Migrator's configuration is on \<open>ns\<close> and a history
  fetched through it holds only revisions of the requested name in the configuration's
  namespace, every release a create carries is a release of \<open>ns\<close> with the name of a matching listed
  release, every delete names a revision of \<open>ns\<close> that the run has just written, and
  no create carries a release of another namespace.
\<close>

theorem namespace_migration_only_matching_releases:
  assumes "list_Run k (actionCfg m) False (world s) = (msgs, Inr releases)"
    and "migrateNamespace k fl m ns s = (res, s')"
  shows "s' = migrateNamespace_loop k fl m ns (filter (\<lambda>r. Namespace r = ns) releases)
                (debug_log msgs (record_call (ListRun (actionCfg m) False) s))
     \<and> (\<exists>segs. new_calls s s' = ListRun (actionCfg m) False # concat segs
           \<and> list_all2 (\<lambda>r seg. release_segment m fl (Name r) ns seg)
                (filter (\<lambda>r. Namespace r = ns) releases) segs)
     \<and> (\<forall>st r cres. StorageCreate st r cres \<in> set (new_calls s s') \<longrightarrow> drv_namespace st = ns)
     \<and> (\<forall>cfg n v dres. ReleasesDelete cfg n v dres \<in> set (new_calls s s') \<longrightarrow>
           cfg = actionCfg m \<and> (\<exists>r\<in>set releases. Namespace r = ns \<and> Name r = n))
     \<and> (\<forall>cfg mx n. HistoryRun cfg mx n \<in> set (new_calls s s') \<longrightarrow>
           cfg = actionCfg m \<and> (\<exists>r\<in>set releases. Namespace r = ns \<and> Name r = n))
     \<and> (cfg_namespace (actionCfg m) = ns
          \<and> (\<forall>n w msgs' hist.
                history_Run k (actionCfg m) (maxHist fl) n w = (msgs', Inr hist) \<longrightarrow>
                  (\<forall>r\<in>set hist. Name r = n \<and> Namespace r = cfg_namespace (actionCfg m))) \<longrightarrow>
          (\<forall>st r cres. StorageCreate st r cres \<in> set (new_calls s s') \<longrightarrow>
             Namespace r = ns \<and> (\<exists>r'\<in>set releases. Namespace r' = ns \<and> Name r' = Name r))
          \<and> (\<forall>cfg n v dres. ReleasesDelete cfg n v dres \<in> set (new_calls s s') \<longrightarrow>
                (\<exists>st r. StorageCreate st r None \<in> set (new_calls s s') \<and> Name r = n
                    \<and> Version r = v \<and> Namespace r = ns))
          \<and> (\<forall>x st cres. Namespace x \<noteq> ns \<longrightarrow>
                StorageCreate st x cres \<notin> set (new_calls s s')))"
proof -
  define s1 where "s1 = debug_log msgs (record_call (ListRun (actionCfg m) False) s)"
  have run: "s' = migrateNamespace_loop k fl m ns releases s1"
    using assms by (simp add: migrateNamespace_def s1_def)
  have frame: "s' = migrateNamespace_loop k fl m ns (filter (\<lambda>r. Namespace r = ns) releases) s1"
    using run migrateNamespace_loop_filter [of k fl m ns releases s1] by simp
  from migrateNamespace_loop_calls [of k fl m ns releases s1] run obtain segs where
    segs: "calls s' = calls s1 @ concat segs"
      "list_all2 (\<lambda>r seg. release_segment m fl (Name r) ns seg)
              (filter (\<lambda>r. Namespace r = ns) releases) segs"
    by auto
  have nc: "new_calls s s' = ListRun (actionCfg m) False # concat segs"
    using segs(1) by (simp add: s1_def)
  have member: "\<exists>r\<in>set releases. Namespace r = ns \<and> release_call m fl (Name r) ns c"
    if "c \<in> set (concat segs)" for c
  proof -
    from list_all2_concat_member [OF segs(2) that] obtain r seg where
      "r \<in> set (filter (\<lambda>r. Namespace r = ns) releases)"
      "release_segment m fl (Name r) ns seg" "c \<in> set seg"
      by blast
    then show ?thesis
      by (auto dest: release_segment_call)
  qed
  have cr: "drv_namespace st = ns"
    if "StorageCreate st r cres \<in> set (new_calls s s')" for st r cres
    using that member [of "StorageCreate st r cres"] by (auto simp: nc)
  have dl: "cfg = actionCfg m \<and> (\<exists>r\<in>set releases. Namespace r = ns \<and> Name r = n)"
    if "ReleasesDelete cfg n v dres \<in> set (new_calls s s')" for cfg n v dres
    using that member [of "ReleasesDelete cfg n v dres"] by (auto simp: nc)
  have hs: "cfg = actionCfg m \<and> (\<exists>r\<in>set releases. Namespace r = ns \<and> Name r = n)"
    if "HistoryRun cfg mx n \<in> set (new_calls s s')" for cfg mx n
    using that member [of "HistoryRun cfg mx n"] by (auto simp: nc)
  have fr: "(\<forall>st r cres. StorageCreate st r cres \<in> set (new_calls s s') \<longrightarrow>
             Namespace r = ns \<and> (\<exists>r'\<in>set releases. Namespace r' = ns \<and> Name r' = Name r))
          \<and> (\<forall>cfg n v dres. ReleasesDelete cfg n v dres \<in> set (new_calls s s') \<longrightarrow>
                (\<exists>st r. StorageCreate st r None \<in> set (new_calls s s') \<and> Name r = n
                    \<and> Version r = v \<and> Namespace r = ns))
          \<and> (\<forall>x st cres. Namespace x \<noteq> ns \<longrightarrow>
                StorageCreate st x cres \<notin> set (new_calls s s'))"
    if on_ns: "cfg_namespace (actionCfg m) = ns"
      and scoped: "\<forall>n w msgs' hist.
            history_Run k (actionCfg m) (maxHist fl) n w = (msgs', Inr hist) \<longrightarrow>
              (\<forall>r\<in>set hist. Name r = n \<and> Namespace r = cfg_namespace (actionCfg m))"
  proof -
    from on_ns scoped have sc: "\<forall>n w msgs' hist.
            history_Run k (actionCfg m) (maxHist fl) n w = (msgs', Inr hist) \<longrightarrow>
              (\<forall>r\<in>set hist. Name r = n \<and> Namespace r = ns)"
      by simp
    from migrateNamespace_loop_scoped [OF sc, of releases s1] run obtain t where
      t: "calls s' = calls s1 @ t"
        "\<forall>st r cres. StorageCreate st r cres \<in> set t \<longrightarrow>
           Namespace r = ns \<and> (\<exists>r'\<in>set releases. Namespace r' = ns \<and> Name r' = Name r)"
        "\<forall>cfg n v dres. ReleasesDelete cfg n v dres \<in> set t \<longrightarrow>
           (\<exists>st r. StorageCreate st r None \<in> set t \<and> Name r = n \<and> Version r = v
               \<and> Namespace r = ns)"
      by auto
    have nc': "new_calls s s' = ListRun (actionCfg m) False # t"
      using t(1) by (simp add: s1_def)
    have c1: "Namespace r = ns \<and> (\<exists>r'\<in>set releases. Namespace r' = ns \<and> Name r' = Name r)"
      if "StorageCreate st r cres \<in> set (new_calls s s')" for st r cres
    proof -
      from that have "StorageCreate st r cres \<in> set t" by (simp add: nc')
      with t(2) show ?thesis by blast
    qed
    have c2: "\<exists>st r. StorageCreate st r None \<in> set (new_calls s s') \<and> Name r = n
                    \<and> Version r = v \<and> Namespace r = ns"
      if "ReleasesDelete cfg n v dres \<in> set (new_calls s s')" for cfg n v dres
    proof -
      from that have "ReleasesDelete cfg n v dres \<in> set t" by (simp add: nc')
      with t(3) obtain st r where
        "StorageCreate st r None \<in> set t" "Name r = n" "Version r = v" "Namespace r = ns"
        by blast
      then show ?thesis by (auto simp: nc')
    qed
    have c3: "StorageCreate st x cres \<notin> set (new_calls s s')"
      if "Namespace x \<noteq> ns" for x st cres
      using that c1 by blast
    from c1 c2 c3 show ?thesis by blast
  qed
  have old: "s' = migrateNamespace_loop k fl m ns (filter (\<lambda>r. Namespace r = ns) releases)
                (debug_log msgs (record_call (ListRun (actionCfg m) False) s))
     \<and> (\<exists>segs. new_calls s s' = ListRun (actionCfg m) False # concat segs
           \<and> list_all2 (\<lambda>r seg. release_segment m fl (Name r) ns seg)
                (filter (\<lambda>r. Namespace r = ns) releases) segs)
     \<and> (\<forall>st r cres. StorageCreate st r cres \<in> set (new_calls s s') \<longrightarrow> drv_namespace st = ns)
     \<and> (\<forall>cfg n v dres. ReleasesDelete cfg n v dres \<in> set (new_calls s s') \<longrightarrow>
           cfg = actionCfg m \<and> (\<exists>r\<in>set releases. Namespace r = ns \<and> Name r = n))
     \<and> (\<forall>cfg mx n. HistoryRun cfg mx n \<in> set (new_calls s s') \<longrightarrow>
           cfg = actionCfg m \<and> (\<exists>r\<in>set releases. Namespace r = ns \<and> Name r = n))"
    using frame nc segs(2) cr dl hs unfolding s1_def by blast
  from old fr show ?thesis by (intro conjI impI) blast+
qed

theorem namespace_migration_only_matching_releases_witness:
  "snd namespace_run
     = migrateNamespace_loop mem_sdk flags1 (migrator0 []) ''prod''
         (filter (\<lambda>r. Namespace r = ''prod'') [rel ''web'' ''default'' 1, rel ''db'' ''prod'' 1])
         (debug_log [] (record_call (ListRun (actionCfg (migrator0 [])) False) state1))
   \<and> filter (\<lambda>r. Namespace r = ''prod'') [rel ''web'' ''default'' 1, rel ''db'' ''prod'' 1]
       = [rel ''db'' ''prod'' 1]
   \<and> (\<exists>segs. new_calls state1 (snd namespace_run)
                 = ListRun (actionCfg (migrator0 [])) False # concat segs
          \<and> list_all2 (\<lambda>r seg. release_segment (migrator0 []) flags1 (Name r) ''prod'' seg)
               (filter (\<lambda>r. Namespace r = ''prod'') [rel ''web'' ''default'' 1, rel ''db'' ''prod'' 1])
               segs)
   \<and> new_calls state1 (snd namespace_run)
       = [ListRun (cfg0 []) False, HistoryRun (cfg0 []) 3 ''db'',
          StorageCreate (secrets_in ''prod'') (rel ''db'' ''prod'' 1) None,
          ReleasesDelete (cfg0 []) ''db'' 1 None]
   \<and> drv_namespace (secrets_in ''prod'') = ''prod''
   \<and> cfg0 [] = actionCfg (migrator0 [])
   \<and> (\<exists>r\<in>set [rel ''web'' ''default'' 1, rel ''db'' ''prod'' 1].
         Namespace r = ''prod'' \<and> Name r = ''db'')
   \<and> new_calls state2 (snd scoped_run)
       = [ListRun (cfg0 ''prod'') False, HistoryRun (cfg0 ''prod'') 3 ''web'',
          StorageCreate (secrets_in ''prod'') (rel ''web'' ''prod'' 1) None,
          ReleasesDelete (cfg0 ''prod'') ''web'' 1 None]
   \<and> cfg_namespace (actionCfg (migrator0 ''prod'')) = ''prod''
   \<and> Namespace (rel ''web'' ''prod'' 1) = ''prod''
   \<and> (\<exists>st r. StorageCreate st r None \<in> set (new_calls state2 (snd scoped_run))
          \<and> Name r = ''web'' \<and> Version r = 1 \<and> Namespace r = ''prod'')
   \<and> StorageCreate (secrets_in ''prod'') (rel ''web'' ''default'' 7) None
        \<notin> set (new_calls state2 (snd scoped_run))
   \<and> world (snd scoped_run)
       = ([rel ''web'' ''default'' 7], [(secrets_in ''prod'', rel ''web'' ''prod'' 1)], [])"
proof -
  have run: "migrateNamespace mem_sdk flags1 (migrator0 []) ''prod'' state1
               = (fst namespace_run, snd namespace_run)"
    by (simp add: namespace_run_def)
  note inst = namespace_migration_only_matching_releases [OF list_state1 run]
  have c: "StorageCreate (secrets_in ''prod'') (rel ''db'' ''prod'' 1) None
             \<in> set (new_calls state1 (snd namespace_run))"
    by (simp add: namespace_run_calls)
  have d: "ReleasesDelete (cfg0 []) ''db'' 1 None \<in> set (new_calls state1 (snd namespace_run))"
    by (simp add: namespace_run_calls)
  from inst have p1: "snd namespace_run
     = migrateNamespace_loop mem_sdk flags1 (migrator0 []) ''prod''
         (filter (\<lambda>r. Namespace r = ''prod'') [rel ''web'' ''default'' 1, rel ''db'' ''prod'' 1])
         (debug_log [] (record_call (ListRun (actionCfg (migrator0 [])) False) state1))"
    by (rule conjunct1)
  from inst have p2: "\<exists>segs. new_calls state1 (snd namespace_run)
                 = ListRun (actionCfg (migrator0 [])) False # concat segs
          \<and> list_all2 (\<lambda>r seg. release_segment (migrator0 []) flags1 (Name r) ''prod'' seg)
               (filter (\<lambda>r. Namespace r = ''prod'') [rel ''web'' ''default'' 1, rel ''db'' ''prod'' 1])
               segs"
    by (rule conjunct2 [THEN conjunct1])
  from inst c have p3: "drv_namespace (secrets_in ''prod'') = ''prod''" by blast
  from inst d have p4: "cfg0 [] = actionCfg (migrator0 [])" by blast
  have p5: "filter (\<lambda>r. Namespace r = ''prod'') [rel ''web'' ''default'' 1, rel ''db'' ''prod'' 1]
       = [rel ''db'' ''prod'' 1]"
    by (simp add: rel_def)
  have h: "HistoryRun (cfg0 []) 3 ''db'' \<in> set (new_calls state1 (snd namespace_run))"
    by (simp add: namespace_run_calls)
  from inst h have p6: "\<exists>r\<in>set [rel ''web'' ''default'' 1, rel ''db'' ''prod'' 1].
         Namespace r = ''prod'' \<and> Name r = ''db''"
    by blast
  have run2: "migrateNamespace mem_sdk flags0 (migrator0 ''prod'') ''prod'' state2
               = (fst scoped_run, snd scoped_run)"
    by (simp add: scoped_run_def)
  have on_ns: "cfg_namespace (actionCfg (migrator0 ''prod'')) = ''prod''"
    by (simp add: migrator0_def cfg0_def)
  have sc: "\<forall>n w msgs' hist.
            history_Run mem_sdk (actionCfg (migrator0 ''prod'')) (maxHist flags0) n w
              = (msgs', Inr hist) \<longrightarrow>
              (\<forall>r\<in>set hist. Name r = n
                  \<and> Namespace r = cfg_namespace (actionCfg (migrator0 ''prod'')))"
    using mem_history_scoped [of "actionCfg (migrator0 ''prod'')"]
    by (simp add: migrator0_def cfg0_def)
  note inst2 = namespace_migration_only_matching_releases [OF list_state2 run2]
  from inst2 on_ns sc have fr:
    "(\<forall>st r cres. StorageCreate st r cres \<in> set (new_calls state2 (snd scoped_run)) \<longrightarrow>
        Namespace r = ''prod''
        \<and> (\<exists>r'\<in>set [rel ''web'' ''prod'' 1]. Namespace r' = ''prod'' \<and> Name r' = Name r))
     \<and> (\<forall>cfg n v dres. ReleasesDelete cfg n v dres \<in> set (new_calls state2 (snd scoped_run)) \<longrightarrow>
           (\<exists>st r. StorageCreate st r None \<in> set (new_calls state2 (snd scoped_run)) \<and> Name r = n
               \<and> Version r = v \<and> Namespace r = ''prod''))
     \<and> (\<forall>x st cres. Namespace x \<noteq> ''prod'' \<longrightarrow>
           StorageCreate st x cres \<notin> set (new_calls state2 (snd scoped_run)))"
    by blast
  have c2: "StorageCreate (secrets_in ''prod'') (rel ''web'' ''prod'' 1) None
              \<in> set (new_calls state2 (snd scoped_run))"
    by (simp add: scoped_run_calls)
  have d2: "ReleasesDelete (cfg0 ''prod'') ''web'' 1 None \<in> set (new_calls state2 (snd scoped_run))"
    by (simp add: scoped_run_calls)
  have other: "Namespace (rel ''web'' ''default'' 7) \<noteq> ''prod''"
    by (simp add: rel_def)
  from fr c2 have q1: "Namespace (rel ''web'' ''prod'' 1) = ''prod''" by blast
  from fr d2 have q2: "\<exists>st r. StorageCreate st r None \<in> set (new_calls state2 (snd scoped_run))
          \<and> Name r = ''web'' \<and> Version r = 1 \<and> Namespace r = ''prod''"
    by blast
  from fr other have q3: "StorageCreate (secrets_in ''prod'') (rel ''web'' ''default'' 7) None
        \<notin> set (new_calls state2 (snd scoped_run))"
    by blast
  from p1 p5 p2 namespace_run_calls p3 p4 p6 scoped_run_calls on_ns q1 q2 q3 scoped_run_world
  show ?thesis
    by (intro conjI)
qed

end
